theory Spec2Isabelle
  imports Main "HOL-Library.Sublist"
begin

section \<open>Data model of \<open>main.go\<close>\<close>

text \<open>
  Go's \<open>int\<close> is a 64-bit signed integer. Values are modelled as \<open>int\<close>; every
  addition, subtraction and negation of the source goes through \<open>int64\<close>, which wraps
  the mathematical result into the 64-bit range as the machine does.
\<close>

definition int64 :: "int \<Rightarrow> int" where
  "int64 v = (v + 2 ^ 63) mod 2 ^ 64 - 2 ^ 63"

text \<open>A runtime panic of the Go program is a value of the model.\<close>

datatype error = IndexOutOfRange | NilDereference

text \<open>
  A \<open>*Cell\<close> is the address of a cell. The cells a search works on are the ones
  \<open>cloneGrid\<close> allocates, one fresh cell per grid position, so the address of a cell
  is its position (row, column) in the grid and two pointers are equal exactly when the
  positions are. A nil \<open>parent\<close> is \<open>None\<close>; a nil \<open>Neighbors\<close> slice is the
  empty list (the source only ranges over it).
\<close>

type_synonym cref = "nat \<times> nat"

record Cell =
  x :: int
  y :: int
  isWall :: bool
  g :: int
  h :: int
  f :: int
  parent :: "cref option"
  index :: int
  Neighbors :: "cref list"

record Pac =
  Id :: int
  Mine :: bool
  X :: int
  Y :: int
  TypeId :: string
  SpeedTurnsLeft :: int
  AbilityCooldown :: int
  TargetX :: int
  TargetY :: int
  TargetPelletId :: int
  TargetPelletDist :: int

record Pellet =
  X :: int
  Y :: int
  Value :: int
  Consumed :: bool
  Targeted :: bool

text \<open>
  The slices of pointers \<open>[]*Pac\<close> and \<open>[]*Pellet\<close> are lists of the values
  pointed to: every element is allocated by its own \<open>append\<close> in \<open>AddPac\<close> or
  \<open>AddPellet\<close>, so no two entries alias and a pointer to an entry is its index.
  The grid \<open>[][]*Cell\<close> is a list of rows of cells, none of them nil (as \<open>main\<close>
  builds it from rows of \<open>Width\<close> characters).
\<close>

record Game =
  Width :: int
  Height :: int
  MyPacs :: "Pac list"
  OpponentPacs :: "Pac list"
  Pellet :: "Pellet list"
  Grid :: "Cell list list"
  MyScore :: int
  OpponentScore :: int
  VisiblePacCount :: int
  VisiblePalleteCount :: int

section \<open>Cells behind pointers\<close>

definition cell_at :: "Cell list list \<Rightarrow> cref \<Rightarrow> Cell" where
  "cell_at cells p = cells ! fst p ! snd p"

definition cell_set :: "Cell list list \<Rightarrow> cref \<Rightarrow> Cell \<Rightarrow> Cell list list" where
  "cell_set cells p c = cells[fst p := (cells ! fst p)[snd p := c]]"

section \<open>PriorityQueue and \<open>container/heap\<close>\<close>

text \<open>
  A \<open>PriorityQueue\<close> is a list of cell addresses; its methods read and write the
  cells behind them, so each takes the cells and returns them updated.
\<close>

definition Len :: "cref list \<Rightarrow> nat" where
  "Len pq = length pq"

definition Less :: "cref list \<Rightarrow> Cell list list \<Rightarrow> nat \<Rightarrow> nat \<Rightarrow> bool" where
  "Less pq cells i j = (f (cell_at cells (pq ! i)) < f (cell_at cells (pq ! j)))"

definition Swap :: "cref list \<Rightarrow> Cell list list \<Rightarrow> nat \<Rightarrow> nat \<Rightarrow> cref list \<times> Cell list list" where
  "Swap pq cells i j =
     (let pq1 = pq[i := pq ! j, j := pq ! i];
          cells1 = cell_set cells (pq1 ! i) ((cell_at cells (pq1 ! i))\<lparr>index := int i\<rparr>);
          cells2 = cell_set cells1 (pq1 ! j) ((cell_at cells1 (pq1 ! j))\<lparr>index := int j\<rparr>)
      in (pq1, cells2))"

definition Push :: "cref list \<Rightarrow> Cell list list \<Rightarrow> cref \<Rightarrow> cref list \<times> Cell list list" where
  "Push pq cells item =
     (let n = length pq;
          cells1 = cell_set cells item ((cell_at cells item)\<lparr>index := int n\<rparr>)
      in (pq @ [item], cells1))"

text \<open>\<open>Pop\<close> is only reached through \<open>heap.Pop\<close> on a queue of positive length.\<close>

definition Pop :: "cref list \<Rightarrow> Cell list list \<Rightarrow> cref \<times> cref list \<times> Cell list list" where
  "Pop pq cells =
     (let n = length pq;
          item = pq ! (n - 1);
          cells1 = cell_set cells item ((cell_at cells item)\<lparr>index := - 1\<rparr>)
      in (item, take (n - 1) pq, cells1))"

text \<open>
  The functions of Go's standard package \<open>container/heap\<close> that the source calls,
  with its sift loops \<open>up\<close> and \<open>down\<close>. Queue positions are natural numbers:
  Go's \<open>(j - 1) / 2\<close> truncates towards zero, so at \<open>j = 0\<close> it is \<open>0\<close>, as the
  truncating subtraction gives here.
\<close>

function heap_up :: "cref list \<Rightarrow> Cell list list \<Rightarrow> nat \<Rightarrow> cref list \<times> Cell list list" where
  "heap_up pq cells j =
     (if (j - 1) div 2 = j \<or> \<not> Less pq cells j ((j - 1) div 2) then (pq, cells)
      else heap_up (fst (Swap pq cells ((j - 1) div 2) j)) (snd (Swap pq cells ((j - 1) div 2) j))
             ((j - 1) div 2))"
  by pat_completeness auto
termination
  by (relation "measure (\<lambda>(pq, cells, j). j)") auto

definition down_child :: "cref list \<Rightarrow> Cell list list \<Rightarrow> nat \<Rightarrow> nat \<Rightarrow> nat" where
  "down_child pq cells i n =
     (if 2 * i + 1 + 1 < n \<and> Less pq cells (2 * i + 1 + 1) (2 * i + 1) then 2 * i + 1 + 1
      else 2 * i + 1)"

function heap_down :: "cref list \<Rightarrow> Cell list list \<Rightarrow> nat \<Rightarrow> nat \<Rightarrow> cref list \<times> Cell list list \<times> nat" where
  "heap_down pq cells i n =
     (if 2 * i + 1 \<ge> n then (pq, cells, i)
      else if \<not> Less pq cells (down_child pq cells i n) i then (pq, cells, i)
      else heap_down (fst (Swap pq cells i (down_child pq cells i n)))
             (snd (Swap pq cells i (down_child pq cells i n))) (down_child pq cells i n) n)"
  by pat_completeness auto
termination
  by (relation "measure (\<lambda>(pq, cells, i, n). n - i)") (auto simp: down_child_def)

fun heap_Init_loop :: "nat list \<Rightarrow> nat \<Rightarrow> cref list \<Rightarrow> Cell list list \<Rightarrow> cref list \<times> Cell list list" where
  "heap_Init_loop [] n pq cells = (pq, cells)"
| "heap_Init_loop (i # is) n pq cells =
     (case heap_down pq cells i n of (pq1, cells1, _) \<Rightarrow> heap_Init_loop is n pq1 cells1)"

definition heap_Init :: "cref list \<Rightarrow> Cell list list \<Rightarrow> cref list \<times> Cell list list" where
  "heap_Init pq cells = heap_Init_loop (rev [0 ..< length pq div 2]) (length pq) pq cells"

definition heap_Push :: "cref list \<Rightarrow> Cell list list \<Rightarrow> cref \<Rightarrow> cref list \<times> Cell list list" where
  "heap_Push pq cells item =
     (case Push pq cells item of (pq1, cells1) \<Rightarrow> heap_up pq1 cells1 (length pq1 - 1))"

definition heap_Pop :: "cref list \<Rightarrow> Cell list list \<Rightarrow> cref \<times> cref list \<times> Cell list list" where
  "heap_Pop pq cells =
     (let n = length pq - 1 in
      case Swap pq cells 0 n of (pq1, cells1) \<Rightarrow>
      case heap_down pq1 cells1 0 n of (pq2, cells2, _) \<Rightarrow> Pop pq2 cells2)"

definition heap_Fix :: "cref list \<Rightarrow> Cell list list \<Rightarrow> nat \<Rightarrow> cref list \<times> Cell list list" where
  "heap_Fix pq cells i =
     (case heap_down pq cells i (length pq) of (pq1, cells1, i1) \<Rightarrow>
        if \<not> i1 > i then heap_up pq1 cells1 i else (pq1, cells1))"

text \<open>
  \<open>update\<close> hands \<open>item.index\<close>, an \<open>int\<close>, to \<open>heap.Fix\<close>. Inside the queue the
  sift loops run; at \<open>-1\<close> (a popped cell) both loops of the library stop at once and
  nothing moves; any other position makes \<open>Less\<close> index the queue out of range.
\<close>

definition update :: "cref list \<Rightarrow> Cell list list \<Rightarrow> cref \<Rightarrow> int \<Rightarrow> int \<Rightarrow> error + cref list \<times> Cell list list" where
  "update pq cells item gv hv =
     (let cells1 = cell_set cells item ((cell_at cells item)\<lparr>g := gv, h := hv, f := int64 (gv + hv)\<rparr>);
          i = index (cell_at cells1 item)
      in if 0 \<le> i \<and> i < int (length pq) then Inr (heap_Fix pq cells1 (nat i))
         else if i = - 1 then Inr (pq, cells1)
         else Inl IndexOutOfRange)"

section \<open>Grid\<close>

text \<open>
  \<open>grid[yv][xv]\<close> as a pointer: the row index is checked first, then the column
  index; either out of range is a panic.
\<close>

definition grid_ref :: "Cell list list \<Rightarrow> int \<Rightarrow> int \<Rightarrow> error + cref" where
  "grid_ref grid yv xv =
     (if 0 \<le> yv \<and> yv < int (length grid) then
        (if 0 \<le> xv \<and> xv < int (length (grid ! nat yv)) then Inr (nat yv, nat xv)
         else Inl IndexOutOfRange)
      else Inl IndexOutOfRange)"

definition GetCell :: "int \<Rightarrow> int \<Rightarrow> Cell list list \<Rightarrow> error + cref" where
  "GetCell xv yv grid = grid_ref grid yv xv"

fun append_ref :: "error + cref list \<Rightarrow> bool \<Rightarrow> error + cref \<Rightarrow> error + cref list" where
  "append_ref (Inl e) c r = Inl e"
| "append_ref (Inr ns) False r = Inr ns"
| "append_ref (Inr ns) True (Inl e) = Inl e"
| "append_ref (Inr ns) True (Inr p) = Inr (ns @ [p])"

definition getNeighbors :: "Cell \<Rightarrow> Cell list list \<Rightarrow> error + cref list" where
  "getNeighbors cell grid =
     (let xv = x cell; yv = y cell;
          n1 = append_ref (Inr []) (xv > 0) (grid_ref grid yv (int64 (xv - 1)))
      in if length grid = 0 then (case n1 of Inl e \<Rightarrow> Inl e | Inr _ \<Rightarrow> Inl IndexOutOfRange)
         else
           (let n2 = append_ref n1 (xv < int64 (int (length (grid ! 0)) - 1))
                       (grid_ref grid yv (int64 (xv + 1)));
                n3 = append_ref n2 (yv > 0) (grid_ref grid (int64 (yv - 1)) xv);
                n4 = append_ref n3 (yv < int64 (int (length grid) - 1))
                       (grid_ref grid (int64 (yv + 1)) xv)
            in n4))"

definition InitNeighbors :: "Cell \<Rightarrow> Cell list list \<Rightarrow> error + Cell" where
  "InitNeighbors c grid =
     (case getNeighbors c grid of Inl e \<Rightarrow> Inl e | Inr ns \<Rightarrow> Inr (c\<lparr>Neighbors := ns\<rparr>))"

definition abs_go :: "int \<Rightarrow> int" where
  "abs_go v = (if v < 0 then int64 (- v) else v)"

definition manhattanDistance :: "Cell \<Rightarrow> Cell \<Rightarrow> int" where
  "manhattanDistance a b =
     int64 (abs_go (int64 (x a - x b)) + abs_go (int64 (y a - y b)))"

text \<open>
  \<open>cloneGrid\<close> allocates a new cell for every position and copies \<open>x\<close>, \<open>y\<close>
  and \<open>isWall\<close>; every other field of the new cell has Go's zero value.
\<close>

definition cloneCell :: "Cell \<Rightarrow> Cell" where
  "cloneCell cell =
     \<lparr>x = x cell, y = y cell, isWall = isWall cell, g = 0, h = 0, f = 0,
      parent = None, index = 0, Neighbors = []\<rparr>"

definition cloneGrid :: "Cell list list \<Rightarrow> Cell list list" where
  "cloneGrid grid = map (map cloneCell) grid"

subsection \<open>The grid \<open>main\<close> builds\<close>

text \<open>
  \<open>main\<close> reads \<open>Height\<close> rows of \<open>Width\<close> characters, allocates one cell
  per character (lines 427 to 438) and then initialises the neighbours of every cell
  (lines 440 to 444).
\<close>

definition main_cell :: "nat \<Rightarrow> nat \<Rightarrow> char \<Rightarrow> Cell" where
  "main_cell i j c =
     \<lparr>x = int j, y = int i, isWall = (c = CHR ''#''), g = 0, h = 0, f = 0,
      parent = None, index = 0, Neighbors = []\<rparr>"

definition main_cells :: "string list \<Rightarrow> Cell list list" where
  "main_cells rows =
     map (\<lambda>(i, row). map (\<lambda>(j, c). main_cell i j c) (enumerate 0 row)) (enumerate 0 rows)"

fun collect :: "(error + 'a) list \<Rightarrow> error + 'a list" where
  "collect [] = Inr []"
| "collect (Inl e # rs) = Inl e"
| "collect (Inr v # rs) = (case collect rs of Inl e \<Rightarrow> Inl e | Inr vs \<Rightarrow> Inr (v # vs))"

definition main_grid :: "string list \<Rightarrow> error + Cell list list" where
  "main_grid rows =
     (let grid = main_cells rows
      in collect (map (\<lambda>cells. collect (map (\<lambda>cell. InitNeighbors cell grid) cells)) grid))"

section \<open>AStar\<close>

definition contains :: "cref list \<Rightarrow> cref \<Rightarrow> bool" where
  "contains pq cell = (cell \<in> set pq)"

text \<open>Lines 191 and 192: the neighbour takes \<open>current\<close> as parent and is re-keyed.\<close>

definition AStar_relax ::
  "cref \<Rightarrow> cref \<Rightarrow> cref \<Rightarrow> int \<Rightarrow> cref list \<Rightarrow> Cell list list \<Rightarrow> error + cref list \<times> Cell list list" where
  "AStar_relax current goal neighbor tentativeGScore openSet cells =
     (let cells1 = cell_set cells neighbor ((cell_at cells neighbor)\<lparr>parent := Some current\<rparr>)
      in update openSet cells1 neighbor tentativeGScore
           (manhattanDistance (cell_at cells1 neighbor) (cell_at cells1 goal)))"

text \<open>The loop over \<open>current.Neighbors\<close> (lines 179 to 193).\<close>

fun AStar_neighbors ::
  "cref \<Rightarrow> cref \<Rightarrow> cref set \<Rightarrow> cref list \<Rightarrow> cref list \<Rightarrow> Cell list list \<Rightarrow> error + cref list \<times> Cell list list" where
  "AStar_neighbors current goal closedSet [] openSet cells = Inr (openSet, cells)"
| "AStar_neighbors current goal closedSet (neighbor # rest) openSet cells =
     (if isWall (cell_at cells neighbor) \<or> neighbor \<in> closedSet then
        AStar_neighbors current goal closedSet rest openSet cells
      else if \<not> contains openSet neighbor then
        (case heap_Push openSet cells neighbor of (openSet1, cells1) \<Rightarrow>
           (case AStar_relax current goal neighbor (int64 (g (cell_at cells current) + 1)) openSet1 cells1 of
              Inl e \<Rightarrow> Inl e
            | Inr (openSet2, cells2) \<Rightarrow> AStar_neighbors current goal closedSet rest openSet2 cells2))
      else if int64 (g (cell_at cells current) + 1) \<ge> g (cell_at cells neighbor) then
        AStar_neighbors current goal closedSet rest openSet cells
      else
        (case AStar_relax current goal neighbor (int64 (g (cell_at cells current) + 1)) openSet cells of
           Inl e \<Rightarrow> Inl e
         | Inr (openSet2, cells2) \<Rightarrow> AStar_neighbors current goal closedSet rest openSet2 cells2))"

text \<open>
  The walk along the \<open>parent\<close> pointers (lines 168 to 171), each cell put in front of
  the path. Not returning is the value \<open>None\<close>.
\<close>

partial_function (option) AStar_path :: "Cell list list \<Rightarrow> cref option \<Rightarrow> cref list \<Rightarrow> cref list option" where
  "AStar_path cells current path =
     (case current of
        None \<Rightarrow> Some path
      | Some c \<Rightarrow> AStar_path cells (parent (cell_at cells c)) (c # path))"

text \<open>
  The main loop (lines 163 to 194). The result is \<open>None\<close> when the loop does not
  return, \<open>Some (Inl e)\<close> for a panic, \<open>Some (Inr None)\<close> for the \<open>nil\<close> slice and
  \<open>Some (Inr (Some path))\<close> for a path.
\<close>

partial_function (option) AStar_loop ::
  "cref \<Rightarrow> cref list \<Rightarrow> cref set \<Rightarrow> Cell list list \<Rightarrow> (error + cref list option) option" where
  "AStar_loop goal openSet closedSet cells =
     (if Len openSet > 0 then
        (case heap_Pop openSet cells of (current, openSet1, cells1) \<Rightarrow>
           if current = goal then
             map_option (\<lambda>path. Inr (Some path)) (AStar_path cells1 (Some current) [])
           else
             (case AStar_neighbors current goal (insert current closedSet)
                     (Neighbors (cell_at cells1 current)) openSet1 cells1 of
                Inl e \<Rightarrow> Some (Inl e)
              | Inr (openSet2, cells2) \<Rightarrow> AStar_loop goal openSet2 (insert current closedSet) cells2))
      else Some (Inr None))"

declare AStar_path.simps [code]
declare AStar_loop.simps [code]

definition AStar :: "int \<Rightarrow> int \<Rightarrow> int \<Rightarrow> int \<Rightarrow> Cell list list \<Rightarrow> (error + cref list option) option" where
  "AStar startX startY endX endY grid =
     (let clone = cloneGrid grid in
      case heap_Init [] clone of (openSet, cells) \<Rightarrow>
        (case GetCell startX startY cells of
           Inl e \<Rightarrow> Some (Inl e)
         | Inr start \<Rightarrow>
             (case GetCell endX endY cells of
                Inl e \<Rightarrow> Some (Inl e)
              | Inr goal \<Rightarrow>
                  (case heap_Push openSet cells start of (openSet1, cells1) \<Rightarrow>
                     AStar_loop goal openSet1 {} cells1))))"

text \<open>\<open>len(path)\<close>: the \<open>nil\<close> slice has length zero.\<close>

definition len_path :: "cref list option \<Rightarrow> int" where
  "len_path path = (case path of None \<Rightarrow> 0 | Some cs \<Rightarrow> int (length cs))"

section \<open>Game state\<close>

text \<open>
  \<open>AddPac\<close>: the loop writes through the pointer of the first pac with the given id
  (\<open>None\<close> when no pac has it); otherwise a new pac is appended to the side's slice.
\<close>

fun AddPac_loop :: "Pac list \<Rightarrow> int \<Rightarrow> int \<Rightarrow> int \<Rightarrow> string \<Rightarrow> int \<Rightarrow> int \<Rightarrow> Pac list option" where
  "AddPac_loop [] idv xv yv typeId speedTurnsLeft abilityCooldown = None"
| "AddPac_loop (pac # pacs) idv xv yv typeId speedTurnsLeft abilityCooldown =
     (if Pac.Id pac = idv then
        Some (pac\<lparr>Pac.X := xv, Pac.Y := yv, TypeId := typeId,
                   SpeedTurnsLeft := speedTurnsLeft, AbilityCooldown := abilityCooldown\<rparr> # pacs)
      else map_option ((#) pac) (AddPac_loop pacs idv xv yv typeId speedTurnsLeft abilityCooldown))"

definition set_pacs :: "Game \<Rightarrow> int \<Rightarrow> Pac list \<Rightarrow> Game" where
  "set_pacs gm mine pacs = (if mine = 1 then gm\<lparr>MyPacs := pacs\<rparr> else gm\<lparr>OpponentPacs := pacs\<rparr>)"

definition AddPac :: "Game \<Rightarrow> int \<Rightarrow> int \<Rightarrow> int \<Rightarrow> int \<Rightarrow> string \<Rightarrow> int \<Rightarrow> int \<Rightarrow> Game" where
  "AddPac gm idv mine xv yv typeId speedTurnsLeft abilityCooldown =
     (let pacs = (if mine = 1 then MyPacs gm else OpponentPacs gm) in
      case AddPac_loop pacs idv xv yv typeId speedTurnsLeft abilityCooldown of
        Some pacs1 \<Rightarrow> set_pacs gm mine pacs1
      | None \<Rightarrow>
          set_pacs gm mine
            (pacs @ [\<lparr>Id = idv, Mine = (mine = 1), X = xv, Y = yv, TypeId = typeId,
                       SpeedTurnsLeft = speedTurnsLeft, AbilityCooldown = abilityCooldown,
                       TargetX = xv, TargetY = yv, TargetPelletId = 0, TargetPelletDist = 0\<rparr>]))"

fun AddPellet_loop :: "Pellet list \<Rightarrow> int \<Rightarrow> int \<Rightarrow> int \<Rightarrow> Pellet list option" where
  "AddPellet_loop [] xv yv v = None"
| "AddPellet_loop (pellet # pellets) xv yv v =
     (if Pellet.X pellet = xv \<and> Pellet.Y pellet = yv then
        Some (pellet\<lparr>Pellet.X := xv, Pellet.Y := yv, Value := v, Consumed := False\<rparr> # pellets)
      else map_option ((#) pellet) (AddPellet_loop pellets xv yv v))"

definition AddPellet :: "Game \<Rightarrow> int \<Rightarrow> int \<Rightarrow> int \<Rightarrow> int \<Rightarrow> Game" where
  "AddPellet gm idv xv yv v =
     (case AddPellet_loop (Pellet gm) xv yv v of
        Some pellets1 \<Rightarrow> gm\<lparr>Pellet := pellets1\<rparr>
      | None \<Rightarrow>
          gm\<lparr>Pellet := Pellet gm @ [\<lparr>X = xv, Y = yv, Value = v, Consumed = False, Targeted = False\<rparr>]\<rparr>)"

text \<open>
  \<open>GetPallet\<close> returns the pointer of the first pellet at the coordinates, that is
  its index in \<open>g.Pellet\<close>, or nil.
\<close>

fun GetPallet_loop :: "Pellet list \<Rightarrow> int \<Rightarrow> int \<Rightarrow> nat option" where
  "GetPallet_loop [] xv yv = None"
| "GetPallet_loop (pallet # pallets) xv yv =
     (if Pellet.X pallet = xv \<and> Pellet.Y pallet = yv then Some 0
      else map_option Suc (GetPallet_loop pallets xv yv))"

definition GetPallet :: "Game \<Rightarrow> int \<Rightarrow> int \<Rightarrow> nat option" where
  "GetPallet gm xv yv = GetPallet_loop (Pellet gm) xv yv"

text \<open>
  The two closest-pellet searches differ in the value they look for only; the loop they
  share takes it as \<open>v\<close>. \<open>closest\<close> is the pointer held so far (an index or nil),
  \<open>closestDist\<close> its distance. A search that panics or does not return makes the loop
  do the same.
\<close>

fun GetClosest_loop ::
  "int \<Rightarrow> Game \<Rightarrow> Pac \<Rightarrow> nat list \<Rightarrow> nat option \<Rightarrow> int \<Rightarrow> (error + nat option) option" where
  "GetClosest_loop v gm pac [] closest closestDist = Some (Inr closest)"
| "GetClosest_loop v gm pac (k # ks) closest closestDist =
     (if Value (Pellet gm ! k) = v \<and> \<not> Consumed (Pellet gm ! k) \<and> \<not> Targeted (Pellet gm ! k) then
        (case AStar (Pac.X pac) (Pac.Y pac) (Pellet.X (Pellet gm ! k)) (Pellet.Y (Pellet gm ! k)) (Grid gm) of
           None \<Rightarrow> None
         | Some (Inl e) \<Rightarrow> Some (Inl e)
         | Some (Inr path) \<Rightarrow>
             if closest = None \<or> len_path path < closestDist then
               GetClosest_loop v gm pac ks (Some k) (len_path path)
             else GetClosest_loop v gm pac ks closest closestDist)
      else GetClosest_loop v gm pac ks closest closestDist)"

definition GetClosestSuperPallet :: "Game \<Rightarrow> Pac \<Rightarrow> (error + nat option) option" where
  "GetClosestSuperPallet gm pac = GetClosest_loop 10 gm pac [0 ..< length (Pellet gm)] None 0"

definition GetClosestRegularPallet :: "Game \<Rightarrow> Pac \<Rightarrow> (error + nat option) option" where
  "GetClosestRegularPallet gm pac = GetClosest_loop 1 gm pac [0 ..< length (Pellet gm)] None 0"

text \<open>
  \<open>CheckTargetEaten\<close> reads the game and writes the pac it is given: it returns the
  pac. \<open>RemovePallet\<close> reads the pac and writes a pellet: it returns the game.
\<close>

definition CheckTargetEaten :: "Game \<Rightarrow> Pac \<Rightarrow> Pac" where
  "CheckTargetEaten gm pac =
     (case GetPallet gm (TargetX pac) (TargetY pac) of
        Some k \<Rightarrow>
          if Consumed (Pellet gm ! k) then
            pac\<lparr>TargetX := Pac.X pac, TargetY := Pac.Y pac, TargetPelletDist := - 1\<rparr>
          else pac
      | None \<Rightarrow> pac\<lparr>TargetX := Pac.X pac, TargetY := Pac.Y pac, TargetPelletDist := - 1\<rparr>)"

definition RemovePallet :: "Game \<Rightarrow> Pac \<Rightarrow> Game" where
  "RemovePallet gm pac =
     (case GetPallet gm (Pac.X pac) (Pac.Y pac) of
        Some k \<Rightarrow> gm\<lparr>Pellet := (Pellet gm)[k := (Pellet gm ! k)\<lparr>Consumed := True\<rparr>]\<rparr>
      | None \<Rightarrow> gm)"

section \<open>PlayTurn\<close>

text \<open>
  The first loop (lines 361 to 365) runs over the owned pacs by index, the pointer of
  the model; the second (lines 366 to 368) only reads the opponent pacs.
\<close>

fun PlayTurn_mine :: "nat list \<Rightarrow> Game \<Rightarrow> Game" where
  "PlayTurn_mine [] gm = gm"
| "PlayTurn_mine (i # is) gm =
     (let gm1 = RemovePallet gm (MyPacs gm ! i);
          pac1 = CheckTargetEaten gm1 (MyPacs gm1 ! i)
      in PlayTurn_mine is (gm1\<lparr>MyPacs := (MyPacs gm1)[i := pac1]\<rparr>))"

fun PlayTurn_opponent :: "Pac list \<Rightarrow> Game \<Rightarrow> Game" where
  "PlayTurn_opponent [] gm = gm"
| "PlayTurn_opponent (pac # pacs) gm = PlayTurn_opponent pacs (RemovePallet gm pac)"

text \<open>
  The commands of a turn are kept as the triples (id, x, y) in the order in which
  \<open>moves\<close> receives them; printing them is left to the transport.
\<close>

type_synonym move = "int \<times> int \<times> int"

text \<open>Lines 374 to 381: the pac stands on its target.\<close>

definition PlayTurn_reached :: "Game \<Rightarrow> nat \<Rightarrow> Game" where
  "PlayTurn_reached gm i =
     (case GetPallet gm (TargetX (MyPacs gm ! i)) (TargetY (MyPacs gm ! i)) of
        Some k \<Rightarrow>
          gm\<lparr>Pellet := (Pellet gm)[k := (Pellet gm ! k)\<lparr>Value := 0\<rparr>],
             MyPacs := (MyPacs gm)[i := (MyPacs gm ! i)\<lparr>TargetX := - 1, TargetY := - 1,
                                                        TargetPelletDist := - 1\<rparr>]\<rparr>
      | None \<Rightarrow> gm)"

text \<open>
  Lines 385 to 389 and 393 to 397: the pac commits to the pellet \<open>k\<close>. The panic of
  \<open>AStar\<close> ends the program whatever was written before it.
\<close>

definition PlayTurn_commit :: "Game \<Rightarrow> nat \<Rightarrow> nat \<Rightarrow> move list \<Rightarrow> (error + Game \<times> move list) option" where
  "PlayTurn_commit gm i k moves =
     (let pac = MyPacs gm ! i; pallet = Pellet gm ! k in
      case AStar (Pac.X pac) (Pac.Y pac) (Pellet.X pallet) (Pellet.Y pallet) (Grid gm) of
        None \<Rightarrow> None
      | Some (Inl e) \<Rightarrow> Some (Inl e)
      | Some (Inr path) \<Rightarrow>
          Some (Inr (gm\<lparr>MyPacs := (MyPacs gm)[i := pac\<lparr>TargetX := Pellet.X pallet,
                                                       TargetY := Pellet.Y pallet,
                                                       TargetPelletDist := len_path path\<rparr>],
                         Pellet := (Pellet gm)[k := pallet\<lparr>Targeted := True\<rparr>]\<rparr>,
                     moves @ [(Pac.Id pac, Pellet.X pallet, Pellet.Y pallet)])))"

text \<open>
  The body of the third loop (lines 371 to 407) for the owned pac \<open>i\<close>. In the last
  branch \<open>pallet\<close> is nil and line 399 reads \<open>pallet.X\<close>: the nil dereference.
\<close>

definition PlayTurn_pac :: "Game \<Rightarrow> nat \<Rightarrow> move list \<Rightarrow> (error + Game \<times> move list) option" where
  "PlayTurn_pac gm i moves =
     (if Pac.X (MyPacs gm ! i) = TargetX (MyPacs gm ! i) \<and> Pac.Y (MyPacs gm ! i) = TargetY (MyPacs gm ! i) then
        (let gm1 = PlayTurn_reached gm i in
         case GetClosestSuperPallet gm1 (MyPacs gm1 ! i) of
           None \<Rightarrow> None
         | Some (Inl e) \<Rightarrow> Some (Inl e)
         | Some (Inr (Some k)) \<Rightarrow> PlayTurn_commit gm1 i k moves
         | Some (Inr None) \<Rightarrow>
             (case GetClosestRegularPallet gm1 (MyPacs gm1 ! i) of
                None \<Rightarrow> None
              | Some (Inl e) \<Rightarrow> Some (Inl e)
              | Some (Inr (Some k)) \<Rightarrow> PlayTurn_commit gm1 i k moves
              | Some (Inr None) \<Rightarrow> Some (Inl NilDereference)))
      else
        Some (Inr (gm, moves @ [(Pac.Id (MyPacs gm ! i), TargetX (MyPacs gm ! i), TargetY (MyPacs gm ! i))])))"

fun PlayTurn_moves :: "nat list \<Rightarrow> Game \<Rightarrow> move list \<Rightarrow> (error + Game \<times> move list) option" where
  "PlayTurn_moves [] gm moves = Some (Inr (gm, moves))"
| "PlayTurn_moves (i # is) gm moves =
     (case PlayTurn_pac gm i moves of
        None \<Rightarrow> None
      | Some (Inl e) \<Rightarrow> Some (Inl e)
      | Some (Inr (gm1, moves1)) \<Rightarrow> PlayTurn_moves is gm1 moves1)"

definition PlayTurn :: "Game \<Rightarrow> (error + Game \<times> move list) option" where
  "PlayTurn gm =
     (let gm1 = PlayTurn_mine [0 ..< length (MyPacs gm)] gm;
          gm2 = PlayTurn_opponent (OpponentPacs gm1) gm1
      in PlayTurn_moves [0 ..< length (MyPacs gm2)] gm2 [])"

section \<open>One round of the loop of \<open>main\<close>\<close>

text \<open>
  The transport hands over the parsed lines of a turn: the two scores, the visible pacs
  (id, mine, x, y, type, speed turns left, ability cooldown) and the visible pellets
  (x, y, value).
\<close>

type_synonym pac_line = "int \<times> int \<times> int \<times> int \<times> string \<times> int \<times> int"
type_synonym pellet_line = "int \<times> int \<times> int"

text \<open>Lines 452 to 454.\<close>

definition main_consume_all :: "Game \<Rightarrow> Game" where
  "main_consume_all gm = gm\<lparr>Pellet := map (\<lambda>pallet. pallet\<lparr>Consumed := True\<rparr>) (Pellet gm)\<rparr>"

fun main_add_pacs :: "pac_line list \<Rightarrow> Game \<Rightarrow> Game" where
  "main_add_pacs [] gm = gm"
| "main_add_pacs ((pacId, mine, xv, yv, typeId, speedTurnsLeft, abilityCooldown) # ls) gm =
     main_add_pacs ls (AddPac gm pacId mine xv yv typeId speedTurnsLeft abilityCooldown)"

fun main_add_pellets :: "pellet_line list \<Rightarrow> int \<Rightarrow> Game \<Rightarrow> Game" where
  "main_add_pellets [] i gm = gm"
| "main_add_pellets ((xv, yv, v) # ls) i gm = main_add_pellets ls (int64 (i + 1)) (AddPellet gm i xv yv v)"

definition main_turn ::
  "Game \<Rightarrow> int \<Rightarrow> int \<Rightarrow> pac_line list \<Rightarrow> pellet_line list \<Rightarrow> (error + Game \<times> move list) option" where
  "main_turn gm myScore opponentScore pacs pellets =
     (let gm1 = gm\<lparr>MyScore := myScore, OpponentScore := opponentScore\<rparr>;
          gm2 = main_consume_all gm1;
          gm3 = main_add_pacs pacs (gm2\<lparr>VisiblePacCount := int (length pacs)\<rparr>);
          gm4 = main_add_pellets pellets 0 (gm3\<lparr>VisiblePalleteCount := int (length pellets)\<rparr>)
      in PlayTurn gm4)"

section \<open>Notions the properties are stated with\<close>

text \<open>An address that lies inside the grid.\<close>

definition in_grid :: "Cell list list \<Rightarrow> cref \<Rightarrow> bool" where
  "in_grid cells p = (fst p < length cells \<and> snd p < length (cells ! fst p))"

section \<open>Fixtures\<close>

text \<open>The grid \<open>main\<close> builds from the one row of two open cells.\<close>

definition open_cell :: "int \<Rightarrow> int \<Rightarrow> cref list \<Rightarrow> Cell" where
  "open_cell xv yv ns =
     \<lparr>x = xv, y = yv, isWall = False, g = 0, h = 0, f = 0, parent = None, index = 0,
      Neighbors = ns\<rparr>"

definition wall_cell :: "int \<Rightarrow> int \<Rightarrow> cref list \<Rightarrow> Cell" where
  "wall_cell xv yv ns =
     \<lparr>x = xv, y = yv, isWall = True, g = 0, h = 0, f = 0, parent = None, index = 0,
      Neighbors = ns\<rparr>"

definition grid_1x2 :: "Cell list list" where
  "grid_1x2 = [[open_cell 0 0 [(0, 1)], open_cell 1 0 [(0, 0)]]]"

subsection \<open>Notions for pellets\<close>

definition coords :: "Pellet \<Rightarrow> int \<times> int" where
  "coords pellet = (Pellet.X pellet, Pellet.Y pellet)"

definition new_pellet :: "int \<Rightarrow> int \<Rightarrow> int \<Rightarrow> Pellet" where
  "new_pellet xv yv v = \<lparr>X = xv, Y = yv, Value = v, Consumed = False, Targeted = False\<rparr>"

definition report_coords :: "pellet_line list \<Rightarrow> (int \<times> int) set" where
  "report_coords reports = set (map (\<lambda>(xv, yv, v). (xv, yv)) reports)"

subsection \<open>Notions for the reconciliation of a turn\<close>

definition pac_pos :: "Pac \<Rightarrow> int \<times> int" where
  "pac_pos pac = (Pac.X pac, Pac.Y pac)"

text \<open>
  The target of a pac is stale when no pellet lies at the target coordinates or the
  pellet there is marked consumed; clearing a target resets it to the position of the pac
  and sets the cached distance to \<open>-1\<close>.
\<close>

definition stale :: "Game \<Rightarrow> Pac \<Rightarrow> bool" where
  "stale gm pac =
     (case GetPallet gm (TargetX pac) (TargetY pac) of
        None \<Rightarrow> True
      | Some k \<Rightarrow> Consumed (Pellet gm ! k))"

definition clear_target :: "Pac \<Rightarrow> Pac" where
  "clear_target pac = pac\<lparr>TargetX := Pac.X pac, TargetY := Pac.Y pac, TargetPelletDist := - 1\<rparr>"

text \<open>The pellets \<open>ps'\<close> are the pellets \<open>ps\<close> with some of those at the positions \<open>P\<close> marked consumed.\<close>

definition eaten_at :: "(int \<times> int) set \<Rightarrow> Pellet list \<Rightarrow> Pellet list \<Rightarrow> bool" where
  "eaten_at P ps ps' =
     (length ps' = length ps \<and>
      (\<forall>k<length ps. ps' ! k = ps ! k \<or> (ps' ! k = (ps ! k)\<lparr>Consumed := True\<rparr> \<and> coords (ps ! k) \<in> P)))"

subsection \<open>Pacs, pellets and games of the examples\<close>

definition pac_at :: "int \<Rightarrow> int \<Rightarrow> int \<Rightarrow> int \<Rightarrow> int \<Rightarrow> Pac" where
  "pac_at idv xv yv tx ty =
     \<lparr>Id = idv, Mine = True, X = xv, Y = yv, TypeId = ''NEUTRAL'', SpeedTurnsLeft = 0,
      AbilityCooldown = 0, TargetX = tx, TargetY = ty, TargetPelletId = 0, TargetPelletDist = 0\<rparr>"

definition pellet_at :: "int \<Rightarrow> int \<Rightarrow> int \<Rightarrow> bool \<Rightarrow> bool \<Rightarrow> Pellet" where
  "pellet_at xv yv v c t = \<lparr>X = xv, Y = yv, Value = v, Consumed = c, Targeted = t\<rparr>"

definition game_of :: "Cell list list \<Rightarrow> Pac list \<Rightarrow> Pac list \<Rightarrow> Pellet list \<Rightarrow> Game" where
  "game_of grid mine theirs pellets =
     \<lparr>Width = int (length (grid ! 0)), Height = int (length grid), MyPacs = mine,
      OpponentPacs = theirs, Pellet = pellets, Grid = grid, MyScore = 0, OpponentScore = 0,
      VisiblePacCount = 0, VisiblePalleteCount = 0\<rparr>"

definition game_two_pellets :: Game where
  "game_two_pellets =
     game_of grid_1x2 [] [] [pellet_at 0 0 1 False False, pellet_at 1 0 10 False False]"

definition game_stale_target :: Game where
  "game_stale_target = game_of grid_1x2 [pac_at 0 0 0 1 0] [] [pellet_at 1 0 10 True True]"

subsection \<open>Notions for the unit tracker and for what a turn keeps\<close>

text \<open>
  The slice \<open>AddPac\<close> works on and the other one; the index of the first pac with an
  id; a pac after a sighting; the pac created on a first sighting.
\<close>

definition side :: "Game \<Rightarrow> int \<Rightarrow> Pac list" where
  "side gm mine = (if mine = 1 then MyPacs gm else OpponentPacs gm)"

definition other_side :: "Game \<Rightarrow> int \<Rightarrow> Pac list" where
  "other_side gm mine = (if mine = 1 then OpponentPacs gm else MyPacs gm)"

definition first_with_id :: "Pac list \<Rightarrow> int \<Rightarrow> nat" where
  "first_with_id pacs idv = length (takeWhile (\<lambda>pac. Pac.Id pac \<noteq> idv) pacs)"

definition sighted :: "Pac \<Rightarrow> int \<Rightarrow> int \<Rightarrow> string \<Rightarrow> int \<Rightarrow> int \<Rightarrow> Pac" where
  "sighted pac xv yv typeId speedTurnsLeft abilityCooldown =
     pac\<lparr>Pac.X := xv, Pac.Y := yv, TypeId := typeId, SpeedTurnsLeft := speedTurnsLeft,
         AbilityCooldown := abilityCooldown\<rparr>"

definition new_pac :: "int \<Rightarrow> int \<Rightarrow> int \<Rightarrow> int \<Rightarrow> string \<Rightarrow> int \<Rightarrow> int \<Rightarrow> Pac" where
  "new_pac idv mine xv yv typeId speedTurnsLeft abilityCooldown =
     \<lparr>Id = idv, Mine = (mine = 1), X = xv, Y = yv, TypeId = typeId,
      SpeedTurnsLeft = speedTurnsLeft, AbilityCooldown = abilityCooldown,
      TargetX = xv, TargetY = yv, TargetPelletId = 0, TargetPelletDist = 0\<rparr>"

text \<open>
  What the planning of a pac leaves as it is: the ids and positions of the owned pacs,
  the opponent pacs, the grid, the coordinates and consumed flags of the pellets, and
  every targeted flag that is set.
\<close>

definition kept :: "Game \<Rightarrow> Game \<Rightarrow> bool" where
  "kept gm gm' =
     (map Pac.Id (MyPacs gm') = map Pac.Id (MyPacs gm) \<and>
      map pac_pos (MyPacs gm') = map pac_pos (MyPacs gm) \<and>
      OpponentPacs gm' = OpponentPacs gm \<and> Grid gm' = Grid gm \<and>
      map coords (Pellet gm') = map coords (Pellet gm) \<and>
      map Consumed (Pellet gm') = map Consumed (Pellet gm) \<and>
      (\<forall>k<length (Pellet gm). Targeted (Pellet gm ! k) \<longrightarrow> Targeted (Pellet gm' ! k)))"

definition game_sighted :: Game where
  "game_sighted = game_of grid_1x2 [] [(pac_at 3 0 0 1 0)\<lparr>Mine := False\<rparr>] []"

subsection \<open>The closest-pellet search of the spec\<close>





subsection \<open>Grids and games of the failing inputs\<close>

definition grid_walled :: "Cell list list" where
  "grid_walled = [[open_cell 0 0 [(0, 1)], wall_cell 1 0 [(0, 0), (0, 2)], open_cell 2 0 [(0, 1)]]]"

definition game_no_pellets :: Game where
  "game_no_pellets = game_of grid_1x2 [pac_at 0 0 0 0 0] [] []"

definition game_walled :: Game where
  "game_walled = game_of grid_walled [pac_at 0 0 0 0 0] [] [pellet_at 2 0 10 False False]"


section \<open>The search on the clone\<close>

lemma cell_at_cell_set: "in_grid cells p \<Longrightarrow> cell_at (cell_set cells p c) p = c"
  by (simp add: in_grid_def cell_at_def cell_set_def)

lemma in_grid_cell_set: "in_grid (cell_set cells q c) p = in_grid cells p"
proof (cases "fst q < length cells")
  case True
  then show ?thesis by (auto simp: in_grid_def cell_set_def nth_list_update)
next
  case False
  then show ?thesis by (simp add: in_grid_def cell_set_def list_update_beyond not_less)
qed

lemma in_grid_cloneGrid: "in_grid (cloneGrid grid) p = in_grid grid p"
  by (auto simp: in_grid_def cloneGrid_def)

lemma cell_at_cloneGrid: "in_grid grid p \<Longrightarrow> cell_at (cloneGrid grid) p = cloneCell (cell_at grid p)"
  by (simp add: in_grid_def cell_at_def cloneGrid_def)

lemma heap_Init_Nil: "heap_Init [] cells = ([], cells)"
  by (simp add: heap_Init_def)

lemma heap_Push_Nil:
  "heap_Push [] cells p = ([p], cell_set cells p ((cell_at cells p)\<lparr>index := 0\<rparr>))"
  by (simp add: heap_Push_def Push_def)

lemma heap_Pop_single:
  "in_grid cells p \<Longrightarrow>
   heap_Pop [p] cells = (p, [], cell_set cells p ((cell_at cells p)\<lparr>index := - 1\<rparr>))"
  apply (simp add: heap_Pop_def Swap_def Pop_def Let_def cell_at_cell_set in_grid_cell_set)
  apply (simp add: cell_set_def in_grid_def)
  done

text \<open>
  One round of the loop on a queue that holds a single cell without neighbours: the
  cell is popped, it is the goal or it is closed, and the queue is empty.
\<close>

lemma AStar_loop_single:
  assumes "in_grid cells p" "parent (cell_at cells p) = None" "Neighbors (cell_at cells p) = []"
  shows "AStar_loop goal [p] {} cells = Some (Inr (if p = goal then Some [p] else None))"
proof -
  let ?c = "cell_set cells p ((cell_at cells p)\<lparr>index := - 1\<rparr>)"
  have c: "cell_at ?c p = (cell_at cells p)\<lparr>index := - 1\<rparr>"
    using assms(1) by (rule cell_at_cell_set)
  show ?thesis
  proof (cases "p = goal")
    case True
    have "AStar_path ?c (Some p) [] = Some [p]"
      by (subst AStar_path.simps, simp add: c assms(2), subst AStar_path.simps, simp)
    then show ?thesis using True assms(1)
      by (subst AStar_loop.simps) (simp add: Len_def heap_Pop_single)
  next
    case False
    have "AStar_loop goal [] {p} ?c = Some (Inr None)"
      by (subst AStar_loop.simps) (simp add: Len_def)
    then show ?thesis using False assms(1)
      by (subst AStar_loop.simps) (simp add: Len_def heap_Pop_single c assms(3))
  qed
qed

lemma GetCell_Inr:
  "GetCell xv yv grid = Inr p \<longleftrightarrow>
     0 \<le> yv \<and> yv < int (length grid) \<and> 0 \<le> xv \<and> xv < int (length (grid ! nat yv)) \<and>
     p = (nat yv, nat xv)"
  by (auto simp: GetCell_def grid_ref_def)

lemma GetCell_cloneGrid: "GetCell xv yv (cloneGrid grid) = GetCell xv yv grid"
  by (cases "0 \<le> yv \<and> yv < int (length grid)") (auto simp: GetCell_def grid_ref_def cloneGrid_def)

lemma GetCell_in_grid: "GetCell xv yv grid = Inr p \<Longrightarrow> in_grid grid p"
  by (auto simp: GetCell_Inr in_grid_def)

lemma AStar_eq:
  "AStar startX startY endX endY grid =
     (case GetCell startX startY grid of
        Inl e \<Rightarrow> Some (Inl e)
      | Inr start \<Rightarrow>
          (case GetCell endX endY grid of
             Inl e \<Rightarrow> Some (Inl e)
           | Inr goal \<Rightarrow> Some (Inr (if start = goal then Some [start] else None))))"
proof (cases "GetCell startX startY grid")
  case (Inl e)
  then show ?thesis by (simp add: AStar_def heap_Init_Nil GetCell_cloneGrid)
next
  case (Inr start)
  note s = this
  show ?thesis
  proof (cases "GetCell endX endY grid")
    case (Inl e)
    then show ?thesis using s by (simp add: AStar_def heap_Init_Nil GetCell_cloneGrid)
  next
    case (Inr goal)
    have ig: "in_grid (cloneGrid grid) start"
      using GetCell_in_grid[OF s] by (simp add: in_grid_cloneGrid)
    let ?cells = "cell_set (cloneGrid grid) start ((cell_at (cloneGrid grid) start)\<lparr>index := 0\<rparr>)"
    have ca: "cell_at ?cells start = (cell_at (cloneGrid grid) start)\<lparr>index := 0\<rparr>"
      using ig by (rule cell_at_cell_set)
    have cc: "cell_at (cloneGrid grid) start = cloneCell (cell_at grid start)"
      using GetCell_in_grid[OF s] by (rule cell_at_cloneGrid)
    have pn: "parent (cell_at ?cells start) = None" "Neighbors (cell_at ?cells start) = []"
      by (simp_all add: ca) (simp_all add: cc cloneCell_def)
    have "AStar_loop goal [start] {} ?cells = Some (Inr (if start = goal then Some [start] else None))"
      using pn by (intro AStar_loop_single) (simp_all add: in_grid_cell_set ig)
    then show ?thesis using s Inr
      by (simp add: AStar_def heap_Init_Nil GetCell_cloneGrid heap_Push_Nil)
  qed
qed

lemma main_grid_1x2: "main_grid [''  ''] = Inr grid_1x2"
  by (simp add: main_grid_def main_cells_def main_cell_def InitNeighbors_def getNeighbors_def
      grid_ref_def int64_def enumerate_eq_zip grid_1x2_def open_cell_def)

text \<open>
  C1. The claim: for every reachable pair of open cells \<open>AStar\<close> returns a path whose
  length is the shortest hop count plus one. On the grid \<open>main\<close> builds from one row of
  two open cells, the cell (1, 0) is a neighbour of (0, 0), one hop away, and the search
  from (0, 0) to (1, 0) returns \<open>nil\<close>.
\<close>

theorem AStar_adjacent_cells_nil:
  "main_grid [''  ''] = Inr grid_1x2 \<and>
   \<not> isWall (cell_at grid_1x2 (0, 0)) \<and> \<not> isWall (cell_at grid_1x2 (0, 1)) \<and>
   (0, 1) \<in> set (Neighbors (cell_at grid_1x2 (0, 0))) \<and>
   AStar 0 0 1 0 grid_1x2 = Some (Inr None)"
  by (simp add: main_grid_1x2 AStar_eq GetCell_def grid_ref_def)
    (simp add: grid_1x2_def open_cell_def cell_at_def)

text \<open>
  C2. For every grid and every start and goal inside it, \<open>AStar\<close> returns: \<open>nil\<close>
  when the two differ and the one-cell path of the start when they are the same cell.
  The cells of the clone the search runs on have no neighbours.
\<close>

theorem AStar_clone_never_expands:
  assumes "0 \<le> startY" "startY < int (length grid)"
    and "0 \<le> startX" "startX < int (length (grid ! nat startY))"
    and "0 \<le> endY" "endY < int (length grid)"
    and "0 \<le> endX" "endX < int (length (grid ! nat endY))"
  shows "AStar startX startY endX endY grid =
           Some (Inr (if startX = endX \<and> startY = endY then Some [(nat startY, nat startX)] else None)) \<and>
         Neighbors (cell_at (cloneGrid grid) (nat startY, nat startX)) = []"
proof -
  have s: "GetCell startX startY grid = Inr (nat startY, nat startX)"
    using assms by (simp add: GetCell_Inr)
  have e: "GetCell endX endY grid = Inr (nat endY, nat endX)"
    using assms by (simp add: GetCell_Inr)
  have "AStar startX startY endX endY grid =
           Some (Inr (if startX = endX \<and> startY = endY then Some [(nat startY, nat startX)] else None))"
    using assms by (auto simp: AStar_eq s e)
  moreover have "Neighbors (cell_at (cloneGrid grid) (nat startY, nat startX)) = []"
    using GetCell_in_grid[OF s] by (simp add: cell_at_cloneGrid cloneCell_def)
  ultimately show ?thesis by simp
qed

theorem AStar_clone_never_expands_witness:
  "AStar 0 0 1 0 grid_1x2 = Some (Inr None) \<and>
   AStar 1 0 1 0 grid_1x2 = Some (Inr (Some [(0, 1)])) \<and>
   Neighbors (cell_at (cloneGrid grid_1x2) (0, 0)) = []"
  using AStar_clone_never_expands [of 0 grid_1x2 0 0 1]
    AStar_clone_never_expands [of 0 grid_1x2 1 0 1]
  by (simp add: grid_1x2_def)

section \<open>Pellet lookup and reconciliation\<close>

lemma GetPallet_loop_Some:
  "GetPallet_loop ps xv yv = Some k \<Longrightarrow>
     k < length ps \<and> coords (ps ! k) = (xv, yv) \<and> (\<forall>j<k. coords (ps ! j) \<noteq> (xv, yv))"
proof (induction ps arbitrary: k)
  case Nil
  then show ?case by simp
next
  case (Cons p ps)
  show ?case
  proof (cases "Pellet.X p = xv \<and> Pellet.Y p = yv")
    case True
    with Cons.prems show ?thesis by (auto simp: coords_def)
  next
    case False
    with Cons.prems obtain k' where k': "GetPallet_loop ps xv yv = Some k'" "k = Suc k'"
      by auto
    from Cons.IH[OF k'(1)] False k'(2) show ?thesis
      by (auto simp: coords_def less_Suc_eq_0_disj)
  qed
qed

lemma GetPallet_loop_None:
  "GetPallet_loop ps xv yv = None \<longleftrightarrow> (xv, yv) \<notin> set (map coords ps)"
  by (induction ps) (auto simp: coords_def)

lemma GetPallet_loop_first:
  "k < length ps \<Longrightarrow> coords (ps ! k) = (xv, yv) \<Longrightarrow> \<forall>j<k. coords (ps ! j) \<noteq> (xv, yv) \<Longrightarrow>
   GetPallet_loop ps xv yv = Some k"
proof (induction ps arbitrary: k)
  case Nil
  then show ?case by simp
next
  case (Cons p ps)
  show ?case
  proof (cases k)
    case 0
    with Cons.prems show ?thesis by (auto simp: coords_def)
  next
    case (Suc k')
    with Cons.prems have "coords p \<noteq> (xv, yv)" by auto
    moreover have "GetPallet_loop ps xv yv = Some k'"
      using Cons.prems Suc by (intro Cons.IH) auto
    ultimately show ?thesis using Suc by (auto simp: coords_def)
  qed
qed

lemma GetPallet_loop_coords:
  "map coords ps = map coords ps' \<Longrightarrow> GetPallet_loop ps xv yv = GetPallet_loop ps' xv yv"
proof (induction ps arbitrary: ps')
  case Nil
  then show ?case by simp
next
  case (Cons p ps)
  then obtain q qs where q: "ps' = q # qs" "coords p = coords q" "map coords ps = map coords qs"
    by (cases ps') auto
  from Cons.IH[OF q(3)] q(1,2) show ?case by (auto simp: coords_def)
qed

lemma AddPellet_loop_eq:
  "AddPellet_loop ps xv yv v =
     map_option (\<lambda>k. ps[k := (ps ! k)\<lparr>Pellet.X := xv, Pellet.Y := yv, Value := v, Consumed := False\<rparr>])
       (GetPallet_loop ps xv yv)"
  by (induction ps) (auto simp: option.map_comp comp_def)

lemma AddPellet_eq:
  "AddPellet gm i xv yv v =
     (case GetPallet gm xv yv of
        Some k \<Rightarrow> gm\<lparr>Pellet := (Pellet gm)[k := (Pellet gm ! k)\<lparr>Value := v, Consumed := False\<rparr>]\<rparr>
      | None \<Rightarrow> gm\<lparr>Pellet := Pellet gm @ [new_pellet xv yv v]\<rparr>)"
proof (cases "GetPallet gm xv yv")
  case None
  then show ?thesis by (simp add: AddPellet_def AddPellet_loop_eq GetPallet_def new_pellet_def)
next
  case (Some k)
  then have "coords (Pellet gm ! k) = (xv, yv)"
    using GetPallet_loop_Some[of "Pellet gm" xv yv k] by (simp add: GetPallet_def)
  then have "(Pellet gm ! k)\<lparr>Pellet.X := xv, Pellet.Y := yv, Value := v, Consumed := False\<rparr> =
             (Pellet gm ! k)\<lparr>Value := v, Consumed := False\<rparr>"
    by (simp add: coords_def)
  then show ?thesis using Some by (simp add: AddPellet_def AddPellet_loop_eq GetPallet_def)
qed

lemma AddPellet_step:
  assumes "distinct (map coords (Pellet gm))"
  shows "length (Pellet gm) \<le> length (Pellet (AddPellet gm i xv yv v))"
    and "distinct (map coords (Pellet (AddPellet gm i xv yv v)))"
    and "k < length (Pellet gm) \<Longrightarrow> coords (Pellet (AddPellet gm i xv yv v) ! k) = coords (Pellet gm ! k)"
    and "k < length (Pellet gm) \<Longrightarrow>
         Consumed (Pellet (AddPellet gm i xv yv v) ! k) \<longleftrightarrow>
           Consumed (Pellet gm ! k) \<and> coords (Pellet gm ! k) \<noteq> (xv, yv)"
proof -
  let ?ps = "Pellet gm"
  show "length ?ps \<le> length (Pellet (AddPellet gm i xv yv v))"
    by (simp add: AddPellet_eq split: option.split)
  have upd: "map coords (?ps[j := (?ps ! j)\<lparr>Value := v, Consumed := False\<rparr>]) = map coords ?ps" for j
    by (cases "j < length ?ps")
      (simp_all add: map_update list_update_same_conv list_update_beyond coords_def)
  show "distinct (map coords (Pellet (AddPellet gm i xv yv v)))"
  proof (cases "GetPallet gm xv yv")
    case None
    then have "(xv, yv) \<notin> set (map coords ?ps)"
      by (simp add: GetPallet_def GetPallet_loop_None)
    then show ?thesis using assms None by (simp add: AddPellet_eq new_pellet_def coords_def)
  next
    case (Some j)
    then show ?thesis using assms by (simp add: AddPellet_eq upd)
  qed
  assume k: "k < length ?ps"
  show "coords (Pellet (AddPellet gm i xv yv v) ! k) = coords (?ps ! k)"
  proof (cases "GetPallet gm xv yv")
    case None
    then show ?thesis using k by (simp add: AddPellet_eq nth_append)
  next
    case (Some j)
    have "coords (?ps[j := (?ps ! j)\<lparr>Value := v, Consumed := False\<rparr>] ! k) =
          map coords (?ps[j := (?ps ! j)\<lparr>Value := v, Consumed := False\<rparr>]) ! k"
      using k by simp
    also have "\<dots> = coords (?ps ! k)" using k by (simp only: upd nth_map)
    finally show ?thesis using Some by (simp add: AddPellet_eq)
  qed
  show "Consumed (Pellet (AddPellet gm i xv yv v) ! k) \<longleftrightarrow>
          Consumed (?ps ! k) \<and> coords (?ps ! k) \<noteq> (xv, yv)"
  proof (cases "GetPallet gm xv yv")
    case None
    then have "(xv, yv) \<notin> set (map coords ?ps)"
      by (simp add: GetPallet_def GetPallet_loop_None)
    then have "coords (?ps ! k) \<noteq> (xv, yv)" using k by (metis length_map nth_map nth_mem)
    then show ?thesis using None k by (simp add: AddPellet_eq nth_append)
  next
    case (Some j)
    then have j: "j < length ?ps" "coords (?ps ! j) = (xv, yv)"
      using GetPallet_loop_Some[of ?ps xv yv j] by (simp_all add: GetPallet_def)
    have "coords (?ps ! k) = (xv, yv) \<longleftrightarrow> k = j"
      using assms j k by (metis distinct_conv_nth length_map nth_map)
    then show ?thesis using Some k j by (auto simp: AddPellet_eq nth_list_update)
  qed
qed

lemma main_add_pellets_inv:
  assumes "distinct (map coords (Pellet gm))"
  shows "length (Pellet gm) \<le> length (Pellet (main_add_pellets reports i gm)) \<and>
         distinct (map coords (Pellet (main_add_pellets reports i gm))) \<and>
         (\<forall>k<length (Pellet gm).
            coords (Pellet (main_add_pellets reports i gm) ! k) = coords (Pellet gm ! k) \<and>
            (Consumed (Pellet (main_add_pellets reports i gm) ! k) \<longleftrightarrow>
               Consumed (Pellet gm ! k) \<and> coords (Pellet gm ! k) \<notin> report_coords reports))"
  using assms
proof (induction reports arbitrary: i gm)
  case Nil
  then show ?case by (simp add: report_coords_def)
next
  case (Cons r reports)
  obtain xv yv v where r: "r = (xv, yv, v)" by (cases r) auto
  let ?g = "AddPellet gm i xv yv v"
  note st = AddPellet_step[OF Cons.prems, where i=i and xv=xv and yv=yv and v=v]
  note ih = Cons.IH[OF st(2), of "int64 (i + 1)"]
  show ?case
  proof (intro conjI allI impI)
    show "length (Pellet gm) \<le> length (Pellet (main_add_pellets (r # reports) i gm))"
      using ih st(1) by (simp add: r)
    show "distinct (map coords (Pellet (main_add_pellets (r # reports) i gm)))"
      using ih by (simp add: r)
  next
    fix k assume k: "k < length (Pellet gm)"
    then have k': "k < length (Pellet ?g)" using st(1) by simp
    show "coords (Pellet (main_add_pellets (r # reports) i gm) ! k) = coords (Pellet gm ! k)"
      using ih k' st(3)[OF k] by (simp add: r)
    show "Consumed (Pellet (main_add_pellets (r # reports) i gm) ! k) \<longleftrightarrow>
            Consumed (Pellet gm ! k) \<and> coords (Pellet gm ! k) \<notin> report_coords (r # reports)"
      using ih k' st(3)[OF k] st(4)[OF k] by (auto simp: r report_coords_def)
  qed
qed

text \<open>
  C7. Every known pellet is marked consumed at the start of a round; a report updates the
  value and un-consumes the first entry at its coordinates, or appends a new unconsumed
  entry; hence, once the reports are applied, a pellet known before is consumed exactly
  when its coordinates are absent from the reports. Coordinates identify pellets: no two
  entries share them, which \<open>AddPellet\<close> maintains.
\<close>

theorem pellets_reconciled:
  assumes "distinct (map coords (Pellet gm))"
  shows "(\<forall>pallet\<in>set (Pellet (main_consume_all gm)). Consumed pallet) \<and>
         (\<forall>i xv yv v g0. AddPellet g0 i xv yv v =
            (case GetPallet g0 xv yv of
               Some k \<Rightarrow> g0\<lparr>Pellet := (Pellet g0)[k := (Pellet g0 ! k)\<lparr>Value := v, Consumed := False\<rparr>]\<rparr>
             | None \<Rightarrow> g0\<lparr>Pellet := Pellet g0 @ [new_pellet xv yv v]\<rparr>)) \<and>
         (\<forall>k<length (Pellet gm).
            coords (Pellet (main_add_pellets reports 0 (main_consume_all gm)) ! k) = coords (Pellet gm ! k) \<and>
            (Consumed (Pellet (main_add_pellets reports 0 (main_consume_all gm)) ! k) \<longleftrightarrow>
               coords (Pellet gm ! k) \<notin> report_coords reports))"
proof -
  have c: "map coords (Pellet (main_consume_all gm)) = map coords (Pellet gm)"
    by (simp add: main_consume_all_def coords_def)
  have d: "distinct (map coords (Pellet (main_consume_all gm)))"
    using assms by (simp add: c)
  have l: "length (Pellet (main_consume_all gm)) = length (Pellet gm)"
    by (simp add: main_consume_all_def)
  have a: "\<forall>pallet\<in>set (Pellet (main_consume_all gm)). Consumed pallet"
    by (auto simp: main_consume_all_def)
  have k: "k < length (Pellet gm) \<Longrightarrow> coords (Pellet (main_consume_all gm) ! k) = coords (Pellet gm ! k)
           \<and> Consumed (Pellet (main_consume_all gm) ! k)" for k
    by (simp add: main_consume_all_def coords_def)
  have m: "\<forall>k<length (Pellet gm).
            coords (Pellet (main_add_pellets reports 0 (main_consume_all gm)) ! k) = coords (Pellet gm ! k) \<and>
            (Consumed (Pellet (main_add_pellets reports 0 (main_consume_all gm)) ! k) \<longleftrightarrow>
               coords (Pellet gm ! k) \<notin> report_coords reports)"
    using main_add_pellets_inv[OF d, of reports 0] k l by simp
  show ?thesis
    using a m AddPellet_eq by blast
qed

section \<open>The first loops of \<open>PlayTurn\<close>\<close>

lemma eaten_at_refl: "eaten_at P ps ps"
  by (simp add: eaten_at_def)

lemma eaten_at_trans: "eaten_at P ps ps' \<Longrightarrow> eaten_at P ps' ps'' \<Longrightarrow> eaten_at P ps ps''"
  unfolding eaten_at_def
  apply (intro conjI allI impI)
   apply simp
  subgoal for k
    apply (elim conjE)
    apply (drule spec[of _ k], drule spec[of _ k])
    apply (auto simp: coords_def)
    done
  done

lemma eaten_at_mono: "eaten_at P ps ps' \<Longrightarrow> P \<subseteq> Q \<Longrightarrow> eaten_at Q ps ps'"
  unfolding eaten_at_def by blast

lemma eaten_at_nth:
  assumes "eaten_at P ps ps'" "k < length ps"
  shows "coords (ps' ! k) = coords (ps ! k)"
    and "Value (ps' ! k) = Value (ps ! k)"
    and "Targeted (ps' ! k) = Targeted (ps ! k)"
    and "Consumed (ps ! k) \<Longrightarrow> Consumed (ps' ! k)"
    and "coords (ps ! k) \<notin> P \<Longrightarrow> ps' ! k = ps ! k"
proof -
  from assms have d: "ps' ! k = ps ! k \<or> (ps' ! k = (ps ! k)\<lparr>Consumed := True\<rparr> \<and> coords (ps ! k) \<in> P)"
    by (simp add: eaten_at_def)
  from d show "coords (ps' ! k) = coords (ps ! k)" by (auto simp: coords_def)
  from d show "Value (ps' ! k) = Value (ps ! k)" by auto
  from d show "Targeted (ps' ! k) = Targeted (ps ! k)" by auto
  from d show "Consumed (ps ! k) \<Longrightarrow> Consumed (ps' ! k)" by auto
  from d show "coords (ps ! k) \<notin> P \<Longrightarrow> ps' ! k = ps ! k" by auto
qed

lemma eaten_at_length: "eaten_at P ps ps' \<Longrightarrow> length ps' = length ps"
  by (simp add: eaten_at_def)

lemma eaten_at_coords: "eaten_at P ps ps' \<Longrightarrow> map coords ps' = map coords ps"
  by (rule nth_equalityI) (simp_all add: eaten_at_length eaten_at_nth(1))

lemma eaten_at_GetPallet:
  "eaten_at P (Pellet gm) (Pellet gm') \<Longrightarrow> GetPallet gm' xv yv = GetPallet gm xv yv"
  by (simp add: GetPallet_def GetPallet_loop_coords[OF eaten_at_coords])

lemma GetPallet_Some:
  "GetPallet gm xv yv = Some k \<Longrightarrow> k < length (Pellet gm) \<and> coords (Pellet gm ! k) = (xv, yv)"
  using GetPallet_loop_Some[of "Pellet gm" xv yv k] by (simp add: GetPallet_def)

lemma RemovePallet_frame:
  "MyPacs (RemovePallet gm pac) = MyPacs gm"
  "OpponentPacs (RemovePallet gm pac) = OpponentPacs gm"
  "Grid (RemovePallet gm pac) = Grid gm"
  by (simp_all add: RemovePallet_def split: option.split)

lemma RemovePallet_eaten:
  "pac_pos pac \<in> P \<Longrightarrow> eaten_at P (Pellet gm) (Pellet (RemovePallet gm pac))"
proof (cases "GetPallet gm (Pac.X pac) (Pac.Y pac)")
  case None
  then show ?thesis by (simp add: RemovePallet_def eaten_at_refl)
next
  case (Some j)
  assume P: "pac_pos pac \<in> P"
  from GetPallet_Some[OF Some] have j: "j < length (Pellet gm)" "coords (Pellet gm ! j) \<in> P"
    using P by (simp_all add: pac_pos_def)
  show ?thesis using Some j
    by (auto simp: RemovePallet_def eaten_at_def nth_list_update)
qed

lemma stale_eaten:
  assumes "eaten_at P (Pellet gm) (Pellet gm')" "stale gm pac"
  shows "stale gm' pac"
proof (cases "GetPallet gm (TargetX pac) (TargetY pac)")
  case None
  then show ?thesis using assms by (simp add: stale_def eaten_at_GetPallet[OF assms(1)])
next
  case (Some k)
  then have "Consumed (Pellet gm ! k)" using assms(2) by (simp add: stale_def)
  then have "Consumed (Pellet gm' ! k)"
    using eaten_at_nth(4)[OF assms(1)] GetPallet_Some[OF Some] by simp
  then show ?thesis using Some by (simp add: stale_def eaten_at_GetPallet[OF assms(1)])
qed

lemma CheckTargetEaten_eq:
  "CheckTargetEaten gm pac = (if stale gm pac then clear_target pac else pac)"
  by (simp add: CheckTargetEaten_def stale_def clear_target_def split: option.split)

lemma CheckTargetEaten_keeps:
  "pac_pos (CheckTargetEaten gm pac) = pac_pos pac"
  "Pac.Id (CheckTargetEaten gm pac) = Pac.Id pac"
  by (simp_all add: CheckTargetEaten_eq clear_target_def pac_pos_def)

lemma PlayTurn_mine_inv:
  assumes "set is \<subseteq> {..<length (MyPacs gm)}"
  shows "map pac_pos (MyPacs (PlayTurn_mine is gm)) = map pac_pos (MyPacs gm) \<and>
         map Pac.Id (MyPacs (PlayTurn_mine is gm)) = map Pac.Id (MyPacs gm) \<and>
         OpponentPacs (PlayTurn_mine is gm) = OpponentPacs gm \<and>
         Grid (PlayTurn_mine is gm) = Grid gm \<and>
         eaten_at (pac_pos ` set (MyPacs gm)) (Pellet gm) (Pellet (PlayTurn_mine is gm)) \<and>
         (\<forall>j. j \<notin> set is \<longrightarrow> MyPacs (PlayTurn_mine is gm) ! j = MyPacs gm ! j)"
  using assms
proof (induction "is" arbitrary: gm)
  case Nil
  then show ?case by (simp add: eaten_at_refl)
next
  case (Cons i "is")
  let ?pac = "MyPacs gm ! i"
  let ?g1 = "RemovePallet gm ?pac"
  let ?g2 = "?g1\<lparr>MyPacs := (MyPacs ?g1)[i := CheckTargetEaten ?g1 (MyPacs ?g1 ! i)]\<rparr>"
  from Cons.prems have i: "i < length (MyPacs gm)" and rest: "set is \<subseteq> {..<length (MyPacs gm)}"
    by auto
  have step: "PlayTurn_mine (i # is) gm = PlayTurn_mine is ?g2"
    by (simp add: Let_def)
  have pos2: "map pac_pos (MyPacs ?g2) = map pac_pos (MyPacs gm)"
    using i by (simp add: RemovePallet_frame map_update CheckTargetEaten_keeps list_update_same_conv)
  have id2: "map Pac.Id (MyPacs ?g2) = map Pac.Id (MyPacs gm)"
    using i by (simp add: RemovePallet_frame map_update CheckTargetEaten_keeps list_update_same_conv)
  have len2: "length (MyPacs ?g2) = length (MyPacs gm)"
    by (simp add: RemovePallet_frame)
  have set2: "pac_pos ` set (MyPacs ?g2) = pac_pos ` set (MyPacs gm)"
    using pos2 by (metis set_map)
  have e1: "eaten_at (pac_pos ` set (MyPacs gm)) (Pellet gm) (Pellet ?g2)"
    using i by (simp add: RemovePallet_eaten)
  from rest have "set is \<subseteq> {..<length (MyPacs ?g2)}" by (simp add: RemovePallet_frame)
  note ih = Cons.IH[OF this]
  show ?case
  proof (intro conjI allI impI)
    show "map pac_pos (MyPacs (PlayTurn_mine (i # is) gm)) = map pac_pos (MyPacs gm)"
      using ih pos2 by (simp only: step)
    show "map Pac.Id (MyPacs (PlayTurn_mine (i # is) gm)) = map Pac.Id (MyPacs gm)"
      using ih id2 by (simp only: step)
    show "OpponentPacs (PlayTurn_mine (i # is) gm) = OpponentPacs gm"
      using ih by (simp only: step) (simp add: RemovePallet_frame)
    show "Grid (PlayTurn_mine (i # is) gm) = Grid gm"
      using ih by (simp only: step) (simp add: RemovePallet_frame)
    show "eaten_at (pac_pos ` set (MyPacs gm)) (Pellet gm) (Pellet (PlayTurn_mine (i # is) gm))"
      using ih e1 eaten_at_trans unfolding step set2 by blast
  next
    fix j assume "j \<notin> set (i # is)"
    then have j: "j \<noteq> i" "j \<notin> set is" by auto
    have "MyPacs (PlayTurn_mine is ?g2) ! j = MyPacs ?g2 ! j" using ih j by blast
    also have "\<dots> = MyPacs gm ! j" using j by (simp add: RemovePallet_frame)
    finally show "MyPacs (PlayTurn_mine (i # is) gm) ! j = MyPacs gm ! j" by (simp only: step)
  qed
qed

lemma PlayTurn_mine_append:
  "PlayTurn_mine (xs @ ys) gm = PlayTurn_mine ys (PlayTurn_mine xs gm)"
  by (induction xs arbitrary: gm) (simp_all add: Let_def)

lemma PlayTurn_opponent_inv:
  "MyPacs (PlayTurn_opponent pacs gm) = MyPacs gm \<and>
   OpponentPacs (PlayTurn_opponent pacs gm) = OpponentPacs gm \<and>
   Grid (PlayTurn_opponent pacs gm) = Grid gm \<and>
   eaten_at (pac_pos ` set pacs) (Pellet gm) (Pellet (PlayTurn_opponent pacs gm))"
proof (induction pacs arbitrary: gm)
  case Nil
  then show ?case by (simp add: eaten_at_refl)
next
  case (Cons pac pacs)
  have e1: "eaten_at (pac_pos ` set (pac # pacs)) (Pellet gm) (Pellet (RemovePallet gm pac))"
    by (simp add: RemovePallet_eaten)
  have e2: "eaten_at (pac_pos ` set (pac # pacs)) (Pellet (RemovePallet gm pac))
              (Pellet (PlayTurn_opponent pacs (RemovePallet gm pac)))"
    using Cons.IH[of "RemovePallet gm pac"] by (auto intro: eaten_at_mono)
  show ?case
    using Cons.IH[of "RemovePallet gm pac"] eaten_at_trans[OF e1 e2]
    by (simp add: RemovePallet_frame)
qed

lemma PlayTurn_mine_at:
  assumes i: "i < length (MyPacs gm)"
  shows "MyPacs (PlayTurn_mine [0 ..< length (MyPacs gm)] gm) ! i =
           CheckTargetEaten (RemovePallet (PlayTurn_mine [0 ..< i] gm) (MyPacs gm ! i)) (MyPacs gm ! i) \<and>
         eaten_at (pac_pos ` set (MyPacs gm)) (Pellet gm)
           (Pellet (RemovePallet (PlayTurn_mine [0 ..< i] gm) (MyPacs gm ! i)))"
proof -
  let ?n = "length (MyPacs gm)"
  let ?gA = "PlayTurn_mine [0 ..< i] gm"
  let ?pac = "MyPacs gm ! i"
  let ?g1 = "RemovePallet ?gA ?pac"
  let ?g2 = "?g1\<lparr>MyPacs := (MyPacs ?g1)[i := CheckTargetEaten ?g1 (MyPacs ?g1 ! i)]\<rparr>"
  have split: "[0 ..< ?n] = [0 ..< i] @ i # [Suc i ..< ?n]"
  proof -
    have "[0 ..< ?n] = [0 ..< i + (?n - i)]" using i by simp
    also have "\<dots> = [0 ..< i] @ [i ..< i + (?n - i)]" by (rule upt_add_eq_append) simp
    also have "[i ..< i + (?n - i)] = i # [Suc i ..< ?n]" using i by (simp add: upt_conv_Cons)
    finally show ?thesis .
  qed
  have "set [0 ..< i] \<subseteq> {..<?n}" using i by auto
  note A = PlayTurn_mine_inv[OF this]
  from A have pacA: "MyPacs ?gA ! i = ?pac" by simp
  from A have lenA: "length (MyPacs ?gA) = ?n" by (metis length_map)
  from A have eA: "eaten_at (pac_pos ` set (MyPacs gm)) (Pellet gm) (Pellet ?gA)" by blast
  from A have setA: "pac_pos ` set (MyPacs ?gA) = pac_pos ` set (MyPacs gm)" by (metis set_map)
  have "pac_pos ?pac \<in> pac_pos ` set (MyPacs gm)" using i by simp
  then have e1: "eaten_at (pac_pos ` set (MyPacs gm)) (Pellet ?gA) (Pellet ?g1)"
    by (rule RemovePallet_eaten)
  have e: "eaten_at (pac_pos ` set (MyPacs gm)) (Pellet gm) (Pellet ?g1)"
    using eaten_at_trans[OF eA e1] .
  have run: "PlayTurn_mine [0 ..< ?n] gm = PlayTurn_mine [Suc i ..< ?n] ?g2"
    by (subst split) (simp add: PlayTurn_mine_append Let_def pacA)
  have "set [Suc i ..< ?n] \<subseteq> {..<length (MyPacs ?g2)}"
    by (auto simp: RemovePallet_frame lenA)
  note B = PlayTurn_mine_inv[OF this]
  have "i \<notin> set [Suc i ..< ?n]" by simp
  with B have "MyPacs (PlayTurn_mine [Suc i ..< ?n] ?g2) ! i = MyPacs ?g2 ! i" by blast
  also have "\<dots> = CheckTargetEaten ?g1 ?pac"
    using i by (simp add: RemovePallet_frame lenA pacA)
  finally show ?thesis using e by (simp only: run) 
qed

text \<open>
  C8. When the target of an owned pac is stale as the turn is planned, \<open>CheckTargetEaten\<close>
  clears it, and so does the first loop of \<open>PlayTurn\<close>: in the state the moves are
  emitted from, the target of the pac is its own position and its cached distance is
  cleared.
\<close>

theorem stale_target_cleared:
  assumes "i < length (MyPacs gm)" and "stale gm (MyPacs gm ! i)"
  shows "CheckTargetEaten gm (MyPacs gm ! i) = clear_target (MyPacs gm ! i) \<and>
         MyPacs (PlayTurn_opponent (OpponentPacs (PlayTurn_mine [0 ..< length (MyPacs gm)] gm))
                   (PlayTurn_mine [0 ..< length (MyPacs gm)] gm)) ! i = clear_target (MyPacs gm ! i) \<and>
         PlayTurn gm =
           PlayTurn_moves [0 ..< length (MyPacs gm)]
             (PlayTurn_opponent (OpponentPacs (PlayTurn_mine [0 ..< length (MyPacs gm)] gm))
                (PlayTurn_mine [0 ..< length (MyPacs gm)] gm)) []"
proof -
  let ?g1 = "PlayTurn_mine [0 ..< length (MyPacs gm)] gm"
  note at = PlayTurn_mine_at[OF assms(1)]
  have "stale (RemovePallet (PlayTurn_mine [0 ..< i] gm) (MyPacs gm ! i)) (MyPacs gm ! i)"
    using at assms(2) stale_eaten by blast
  then have "MyPacs ?g1 ! i = clear_target (MyPacs gm ! i)"
    using at by (simp add: CheckTargetEaten_eq)
  moreover have "length (MyPacs ?g1) = length (MyPacs gm)"
    using PlayTurn_mine_inv[of "[0 ..< length (MyPacs gm)]" gm] by (metis atLeast_upt length_map order_refl)
  ultimately show ?thesis
    using assms(2) by (simp add: CheckTargetEaten_eq PlayTurn_opponent_inv PlayTurn_def Let_def)
qed

theorem pellets_reconciled_witness:
  "distinct (map coords (Pellet game_two_pellets)) \<and>
   Consumed (Pellet (main_add_pellets [(1, 0, 10)] 0 (main_consume_all game_two_pellets)) ! 0) \<and>
   \<not> Consumed (Pellet (main_add_pellets [(1, 0, 10)] 0 (main_consume_all game_two_pellets)) ! 1)"
proof -
  have d: "distinct (map coords (Pellet game_two_pellets))"
    by (simp add: game_two_pellets_def game_of_def pellet_at_def coords_def)
  have l: "length (Pellet game_two_pellets) = 2"
    by (simp add: game_two_pellets_def game_of_def)
  have c: "coords (Pellet game_two_pellets ! 0) = (0, 0)" "coords (Pellet game_two_pellets ! 1) = (1, 0)"
    by (simp_all add: game_two_pellets_def game_of_def pellet_at_def coords_def)
  from pellets_reconciled[OF d, of "[(1, 0, 10)]"]
  have "\<forall>k<length (Pellet game_two_pellets).
          Consumed (Pellet (main_add_pellets [(1, 0, 10)] 0 (main_consume_all game_two_pellets)) ! k) \<longleftrightarrow>
            coords (Pellet game_two_pellets ! k) \<notin> report_coords [(1, 0, 10)]"
    by blast
  then show ?thesis using d l c by (simp add: report_coords_def)
qed

theorem stale_target_cleared_witness:
  "0 < length (MyPacs game_stale_target) \<and> stale game_stale_target (MyPacs game_stale_target ! 0) \<and>
   CheckTargetEaten game_stale_target (pac_at 0 0 0 1 0) = (pac_at 0 0 0 0 0)\<lparr>TargetPelletDist := - 1\<rparr>"
proof -
  have l: "0 < length (MyPacs game_stale_target)"
    by (simp add: game_stale_target_def game_of_def)
  have s: "stale game_stale_target (MyPacs game_stale_target ! 0)"
    by (simp add: game_stale_target_def game_of_def stale_def GetPallet_def pac_at_def pellet_at_def)
  have p: "MyPacs game_stale_target ! 0 = pac_at 0 0 0 1 0"
    by (simp add: game_stale_target_def game_of_def)
  from stale_target_cleared[OF l s] show ?thesis
    using l s by (simp add: p clear_target_def pac_at_def)
qed

section \<open>Units and what a round keeps\<close>

lemma AddPac_loop_eq:
  "AddPac_loop pacs idv xv yv t s a =
     (if first_with_id pacs idv < length pacs
      then Some (pacs[first_with_id pacs idv := sighted (pacs ! first_with_id pacs idv) xv yv t s a])
      else None)"
  by (induction pacs) (auto simp: first_with_id_def sighted_def)

lemma side_set_pacs:
  "side (set_pacs gm mine pacs) mine = pacs"
  "other_side (set_pacs gm mine pacs) mine = other_side gm mine"
  "Pellet (set_pacs gm mine pacs) = Pellet gm"
  "Grid (set_pacs gm mine pacs) = Grid gm"
  by (simp_all add: side_def other_side_def set_pacs_def)

lemma AddPac_side:
  "side (AddPac gm idv mine xv yv t s a) mine =
     (if first_with_id (side gm mine) idv < length (side gm mine)
      then (side gm mine)[first_with_id (side gm mine) idv :=
             sighted (side gm mine ! first_with_id (side gm mine) idv) xv yv t s a]
      else side gm mine @ [new_pac idv mine xv yv t s a])"
  unfolding AddPac_def Let_def AddPac_loop_eq
  by (simp add: side_set_pacs new_pac_def) (simp add: side_def)

lemma AddPac_frame:
  "other_side (AddPac gm idv mine xv yv t s a) mine = other_side gm mine"
  "Pellet (AddPac gm idv mine xv yv t s a) = Pellet gm"
  "Grid (AddPac gm idv mine xv yv t s a) = Grid gm"
  unfolding AddPac_def Let_def by (simp_all add: side_set_pacs split: option.split)

lemma map_update_same: "fn v = fn (xs ! i) \<Longrightarrow> map fn (xs[i := v]) = map fn xs"
  by (cases "i < length xs") (simp_all add: map_update list_update_same_conv list_update_beyond)

lemma AddPac_ids:
  "prefix (map Pac.Id (side gm mine)) (map Pac.Id (side (AddPac gm idv mine xv yv t s a) mine))"
  by (simp add: AddPac_side map_update_same sighted_def)

lemma kept_refl: "kept gm gm"
  by (simp add: kept_def)

lemma kept_length: "kept gm gm' \<Longrightarrow> length (Pellet gm') = length (Pellet gm)"
  unfolding kept_def by (metis length_map)

lemma kept_trans: "kept gm gm' \<Longrightarrow> kept gm' gm'' \<Longrightarrow> kept gm gm''"
  using kept_length[of gm gm'] unfolding kept_def by auto

lemma nth_update_Targeted:
  "Targeted (ps ! j) \<Longrightarrow> Targeted (ps[k := (ps ! k)\<lparr>Value := v\<rparr>] ! j)"
  "Targeted (ps ! j) \<Longrightarrow> Targeted (ps[k := (ps ! k)\<lparr>Targeted := True\<rparr>] ! j)"
  by (cases "k < length ps"; cases "j = k"; simp add: list_update_beyond)+

lemma PlayTurn_reached_kept: "kept gm (PlayTurn_reached gm i)"
  unfolding kept_def PlayTurn_reached_def
  by (auto simp: map_update_same pac_pos_def coords_def nth_update_Targeted split: option.split)

lemma PlayTurn_commit_kept:
  "PlayTurn_commit gm i k moves = Some (Inr (gm', moves')) \<Longrightarrow> kept gm gm'"
  unfolding kept_def PlayTurn_commit_def Let_def
  by (auto simp: map_update_same pac_pos_def coords_def nth_update_Targeted
      split: option.splits sum.splits)

lemma PlayTurn_pac_kept:
  assumes "PlayTurn_pac gm i moves = Some (Inr (gm', moves'))"
  shows "kept gm gm'"
proof (cases "Pac.X (MyPacs gm ! i) = TargetX (MyPacs gm ! i) \<and> Pac.Y (MyPacs gm ! i) = TargetY (MyPacs gm ! i)")
  case False
  with assms show ?thesis by (auto simp: PlayTurn_pac_def kept_refl)
next
  case True
  let ?g1 = "PlayTurn_reached gm i"
  from assms True have "\<exists>k. PlayTurn_commit ?g1 i k moves = Some (Inr (gm', moves'))"
    by (auto simp: PlayTurn_pac_def Let_def split: option.splits sum.splits)
  then show ?thesis
    using PlayTurn_commit_kept PlayTurn_reached_kept kept_trans by blast
qed

lemma PlayTurn_moves_kept:
  "PlayTurn_moves is gm moves = Some (Inr (gm', moves')) \<Longrightarrow> kept gm gm'"
proof (induction "is" arbitrary: gm moves)
  case Nil
  then show ?case by (simp add: kept_refl)
next
  case (Cons i "is")
  from Cons.prems obtain g1 m1 where
    s: "PlayTurn_pac gm i moves = Some (Inr (g1, m1))" "PlayTurn_moves is g1 m1 = Some (Inr (gm', moves'))"
    by (auto split: option.splits sum.splits)
  from PlayTurn_pac_kept[OF s(1)] Cons.IH[OF s(2)] show ?case by (rule kept_trans)
qed

lemma PlayTurn_kept:
  assumes "PlayTurn gm = Some (Inr (gm', moves))"
  shows "map Pac.Id (MyPacs gm') = map Pac.Id (MyPacs gm)"
    and "OpponentPacs gm' = OpponentPacs gm"
    and "length (Pellet gm') = length (Pellet gm)"
    and "k < length (Pellet gm) \<Longrightarrow> coords (Pellet gm' ! k) = coords (Pellet gm ! k)"
    and "k < length (Pellet gm) \<Longrightarrow> Targeted (Pellet gm ! k) \<Longrightarrow> Targeted (Pellet gm' ! k)"
proof -
  let ?g1 = "PlayTurn_mine [0 ..< length (MyPacs gm)] gm"
  let ?g2 = "PlayTurn_opponent (OpponentPacs ?g1) ?g1"
  have "set [0 ..< length (MyPacs gm)] \<subseteq> {..<length (MyPacs gm)}" by auto
  note A = PlayTurn_mine_inv[OF this]
  note B = PlayTurn_opponent_inv[of "OpponentPacs ?g1" ?g1]
  from A have lA: "length (MyPacs ?g1) = length (MyPacs gm)" by (metis length_map)
  have "PlayTurn_moves [0 ..< length (MyPacs gm)] ?g2 [] = Some (Inr (gm', moves))"
    using assms B lA by (simp add: PlayTurn_def Let_def)
  note C = PlayTurn_moves_kept[OF this]
  from A have eA: "eaten_at (pac_pos ` set (MyPacs gm)) (Pellet gm) (Pellet ?g1)" by blast
  from B have eB: "eaten_at (pac_pos ` set (OpponentPacs ?g1)) (Pellet ?g1) (Pellet ?g2)" by blast
  have l1: "length (Pellet ?g1) = length (Pellet gm)" using eA by (rule eaten_at_length)
  have l2: "length (Pellet ?g2) = length (Pellet gm)" using eaten_at_length[OF eB] l1 by simp
  show "map Pac.Id (MyPacs gm') = map Pac.Id (MyPacs gm)"
    using A B C by (simp add: kept_def)
  show "OpponentPacs gm' = OpponentPacs gm"
    using A B C by (simp add: kept_def)
  show l3: "length (Pellet gm') = length (Pellet gm)"
    using kept_length[OF C] l2 by simp
  assume k: "k < length (Pellet gm)"
  have "coords (Pellet gm' ! k) = map coords (Pellet gm') ! k" using k l3 by simp
  also have "\<dots> = map coords (Pellet ?g2) ! k" using C by (simp add: kept_def)
  also have "\<dots> = coords (Pellet ?g2 ! k)" using k l2 by simp
  also have "\<dots> = coords (Pellet ?g1 ! k)" using eaten_at_nth(1)[OF eB] k l1 by simp
  also have "\<dots> = coords (Pellet gm ! k)" using eaten_at_nth(1)[OF eA] k by simp
  finally show "coords (Pellet gm' ! k) = coords (Pellet gm ! k)" .
  assume t: "Targeted (Pellet gm ! k)"
  then have "Targeted (Pellet ?g1 ! k)" using eaten_at_nth(3)[OF eA k] by simp
  then have "Targeted (Pellet ?g2 ! k)" using eaten_at_nth(3)[OF eB] k l1 by simp
  then show "Targeted (Pellet gm' ! k)" using C k l2 by (simp add: kept_def)
qed

lemma AddPac_prefix:
  "prefix (map Pac.Id (MyPacs gm)) (map Pac.Id (MyPacs (AddPac gm idv mine xv yv t s a)))"
  "prefix (map Pac.Id (OpponentPacs gm)) (map Pac.Id (OpponentPacs (AddPac gm idv mine xv yv t s a)))"
  using AddPac_ids[of gm mine idv xv yv t s a] AddPac_frame(1)[of gm idv mine xv yv t s a]
  by (auto simp: side_def other_side_def split: if_splits)

lemma main_add_pacs_inv:
  "prefix (map Pac.Id (MyPacs gm)) (map Pac.Id (MyPacs (main_add_pacs ls gm))) \<and>
   prefix (map Pac.Id (OpponentPacs gm)) (map Pac.Id (OpponentPacs (main_add_pacs ls gm))) \<and>
   Pellet (main_add_pacs ls gm) = Pellet gm \<and> Grid (main_add_pacs ls gm) = Grid gm"
proof (induction ls arbitrary: gm)
  case Nil
  then show ?case by simp
next
  case (Cons l ls)
  obtain idv mine xv yv t s a where l: "l = (idv, mine, xv, yv, t, s, a)"
    by (cases l) auto
  show ?case
    using Cons.IH[of "AddPac gm idv mine xv yv t s a"] AddPac_prefix[of gm idv mine xv yv t s a]
    by (auto simp: l AddPac_frame intro: prefix_order.trans)
qed

lemma AddPellet_old:
  "MyPacs (AddPellet gm i xv yv v) = MyPacs gm"
  "OpponentPacs (AddPellet gm i xv yv v) = OpponentPacs gm"
  "length (Pellet gm) \<le> length (Pellet (AddPellet gm i xv yv v))"
  "k < length (Pellet gm) \<Longrightarrow> coords (Pellet (AddPellet gm i xv yv v) ! k) = coords (Pellet gm ! k)"
  "k < length (Pellet gm) \<Longrightarrow> Targeted (Pellet (AddPellet gm i xv yv v) ! k) = Targeted (Pellet gm ! k)"
proof -
  show "MyPacs (AddPellet gm i xv yv v) = MyPacs gm"
    by (simp add: AddPellet_eq split: option.split)
  show "OpponentPacs (AddPellet gm i xv yv v) = OpponentPacs gm"
    by (simp add: AddPellet_eq split: option.split)
  show "length (Pellet gm) \<le> length (Pellet (AddPellet gm i xv yv v))"
    by (simp add: AddPellet_eq split: option.split)
  assume k: "k < length (Pellet gm)"
  have u: "j < length (Pellet gm) \<Longrightarrow>
           coords ((Pellet gm)[j := (Pellet gm ! j)\<lparr>Value := v, Consumed := False\<rparr>] ! k) = coords (Pellet gm ! k) \<and>
           Targeted ((Pellet gm)[j := (Pellet gm ! j)\<lparr>Value := v, Consumed := False\<rparr>] ! k) = Targeted (Pellet gm ! k)" for j
    using k by (cases "j = k") (simp_all add: coords_def)
  show "coords (Pellet (AddPellet gm i xv yv v) ! k) = coords (Pellet gm ! k)"
    using k u by (auto simp: AddPellet_eq nth_append dest: GetPallet_Some split: option.split)
  show "Targeted (Pellet (AddPellet gm i xv yv v) ! k) = Targeted (Pellet gm ! k)"
    using k u by (auto simp: AddPellet_eq nth_append dest: GetPallet_Some split: option.split)
qed

lemma main_add_pellets_old:
  "MyPacs (main_add_pellets ls i gm) = MyPacs gm \<and>
   OpponentPacs (main_add_pellets ls i gm) = OpponentPacs gm \<and>
   length (Pellet gm) \<le> length (Pellet (main_add_pellets ls i gm)) \<and>
   (\<forall>k<length (Pellet gm).
      coords (Pellet (main_add_pellets ls i gm) ! k) = coords (Pellet gm ! k) \<and>
      Targeted (Pellet (main_add_pellets ls i gm) ! k) = Targeted (Pellet gm ! k))"
proof (induction ls arbitrary: i gm)
  case Nil
  then show ?case by simp
next
  case (Cons l ls)
  obtain xv yv v where l: "l = (xv, yv, v)" by (cases l) auto
  note ih = Cons.IH[of "int64 (i + 1)" "AddPellet gm i xv yv v"]
  note st = AddPellet_old[where gm=gm and i=i and xv=xv and yv=yv and v=v]
  show ?case
  proof (intro conjI allI impI)
    fix k assume k: "k < length (Pellet gm)"
    then have k': "k < length (Pellet (AddPellet gm i xv yv v))" using st(3) by simp
    show "coords (Pellet (main_add_pellets (l # ls) i gm) ! k) = coords (Pellet gm ! k)"
      using ih k' st(4)[OF k] by (simp add: l)
    show "Targeted (Pellet (main_add_pellets (l # ls) i gm) ! k) = Targeted (Pellet gm ! k)"
      using ih k' st(5)[OF k] by (simp add: l)
  qed (use ih st in \<open>simp_all add: l\<close>)
qed

lemma main_turn_kept:
  assumes "main_turn gm myScore opponentScore pacs pellets = Some (Inr (gm', moves))"
  shows "prefix (map Pac.Id (MyPacs gm)) (map Pac.Id (MyPacs gm'))"
    and "prefix (map Pac.Id (OpponentPacs gm)) (map Pac.Id (OpponentPacs gm'))"
    and "length (Pellet gm) \<le> length (Pellet gm')"
    and "k < length (Pellet gm) \<Longrightarrow> coords (Pellet gm' ! k) = coords (Pellet gm ! k)"
    and "k < length (Pellet gm) \<Longrightarrow> Targeted (Pellet gm ! k) \<Longrightarrow> Targeted (Pellet gm' ! k)"
proof -
  let ?g2 = "main_consume_all (gm\<lparr>MyScore := myScore, OpponentScore := opponentScore\<rparr>)"
  let ?g3 = "main_add_pacs pacs (?g2\<lparr>VisiblePacCount := int (length pacs)\<rparr>)"
  let ?g4 = "main_add_pellets pellets 0 (?g3\<lparr>VisiblePalleteCount := int (length pellets)\<rparr>)"
  have pt: "PlayTurn ?g4 = Some (Inr (gm', moves))"
    using assms by (simp add: main_turn_def Let_def)
  note P = PlayTurn_kept[OF pt]
  note A = main_add_pacs_inv[of "?g2\<lparr>VisiblePacCount := int (length pacs)\<rparr>" pacs]
  note B = main_add_pellets_old[of pellets 0 "?g3\<lparr>VisiblePalleteCount := int (length pellets)\<rparr>"]
  have p3: "Pellet ?g3 = map (\<lambda>pallet. pallet\<lparr>Consumed := True\<rparr>) (Pellet gm)"
    using A by (simp add: main_consume_all_def)
  show "prefix (map Pac.Id (MyPacs gm)) (map Pac.Id (MyPacs gm'))"
    using A B P(1) by (simp add: main_consume_all_def)
  show "prefix (map Pac.Id (OpponentPacs gm)) (map Pac.Id (OpponentPacs gm'))"
    using A B P(2) by (simp add: main_consume_all_def)
  show "length (Pellet gm) \<le> length (Pellet gm')"
    using B P(3) by (simp add: p3)
  assume k: "k < length (Pellet gm)"
  then have k4: "k < length (Pellet ?g4)" using B by (simp add: p3)
  have c4: "coords (Pellet ?g4 ! k) = coords (Pellet gm ! k)"
    using B k by (simp add: p3 coords_def)
  show "coords (Pellet gm' ! k) = coords (Pellet gm ! k)"
    using P(4)[OF k4] c4 by simp
  assume "Targeted (Pellet gm ! k)"
  then have "Targeted (Pellet ?g4 ! k)" using B k by (simp add: p3)
  then show "Targeted (Pellet gm' ! k)" using P(5)[OF k4] by simp
qed

lemma first_with_id_present:
  "first_with_id pacs idv < length pacs \<longleftrightarrow> idv \<in> Pac.Id ` set pacs"
  unfolding first_with_id_def
  by (induction pacs) auto

text \<open>
  C10. \<open>AddPac\<close> on an id the side already has overwrites, in the first pac with that
  id, the position and the type, speed and cooldown attributes and nothing else: the
  target and the cached distance stay. On a new id it appends a pac whose target is its
  own position. The other side is untouched, and a whole round of \<open>main\<close> keeps
  every pac of both sides in its place.
\<close>

theorem AddPac_upsert:
  "side (AddPac gm idv mine xv yv t s a) mine =
     (if idv \<in> Pac.Id ` set (side gm mine)
      then (side gm mine)[first_with_id (side gm mine) idv :=
             sighted (side gm mine ! first_with_id (side gm mine) idv) xv yv t s a]
      else side gm mine @ [new_pac idv mine xv yv t s a]) \<and>
   other_side (AddPac gm idv mine xv yv t s a) mine = other_side gm mine \<and>
   TargetX (sighted pac xv yv t s a) = TargetX pac \<and>
   TargetY (sighted pac xv yv t s a) = TargetY pac \<and>
   TargetPelletDist (sighted pac xv yv t s a) = TargetPelletDist pac \<and>
   sighted pac xv yv t s a =
     \<lparr>Id = Pac.Id pac, Mine = Mine pac, X = xv, Y = yv, TypeId = t, SpeedTurnsLeft = s,
      AbilityCooldown = a, TargetX = TargetX pac, TargetY = TargetY pac,
      TargetPelletId = TargetPelletId pac, TargetPelletDist = TargetPelletDist pac\<rparr> \<and>
   pac_pos (new_pac idv mine xv yv t s a) = (xv, yv) \<and>
   TargetX (new_pac idv mine xv yv t s a) = xv \<and>
   TargetY (new_pac idv mine xv yv t s a) = yv \<and>
   (main_turn gm0 myScore opponentScore pacs pellets = Some (Inr (gm1, moves)) \<longrightarrow>
      prefix (map Pac.Id (MyPacs gm0)) (map Pac.Id (MyPacs gm1)) \<and>
      prefix (map Pac.Id (OpponentPacs gm0)) (map Pac.Id (OpponentPacs gm1)))"
proof -
  have "main_turn gm0 myScore opponentScore pacs pellets = Some (Inr (gm1, moves)) \<longrightarrow>
      prefix (map Pac.Id (MyPacs gm0)) (map Pac.Id (MyPacs gm1)) \<and>
      prefix (map Pac.Id (OpponentPacs gm0)) (map Pac.Id (OpponentPacs gm1))"
    using main_turn_kept(1,2) by blast
  moreover have "side (AddPac gm idv mine xv yv t s a) mine =
     (if idv \<in> Pac.Id ` set (side gm mine)
      then (side gm mine)[first_with_id (side gm mine) idv :=
             sighted (side gm mine ! first_with_id (side gm mine) idv) xv yv t s a]
      else side gm mine @ [new_pac idv mine xv yv t s a])"
    by (simp only: AddPac_side first_with_id_present)
  ultimately show ?thesis
    by (simp add: AddPac_frame sighted_def new_pac_def pac_pos_def)
qed

theorem AddPac_upsert_witness:
  "main_turn game_sighted 0 0 [(3, 0, 1, 0, ''NEUTRAL'', 0, 0), (4, 0, 0, 0, ''NEUTRAL'', 0, 0)] [] =
     Some (Inr (game_of grid_1x2 []
                  [(pac_at 3 1 0 1 0)\<lparr>Mine := False\<rparr>, (pac_at 4 0 0 0 0)\<lparr>Mine := False\<rparr>] []
                  \<lparr>VisiblePacCount := 2\<rparr>, [])) \<and>
   prefix (map Pac.Id (OpponentPacs game_sighted)) [3, 4]"
proof -
  have mt: "main_turn game_sighted 0 0 [(3, 0, 1, 0, ''NEUTRAL'', 0, 0), (4, 0, 0, 0, ''NEUTRAL'', 0, 0)] [] =
     Some (Inr (game_of grid_1x2 []
                  [(pac_at 3 1 0 1 0)\<lparr>Mine := False\<rparr>, (pac_at 4 0 0 0 0)\<lparr>Mine := False\<rparr>] []
                  \<lparr>VisiblePacCount := 2\<rparr>, []))"
    by (simp add: main_turn_def main_consume_all_def game_sighted_def game_of_def pac_at_def
        AddPac_def set_pacs_def PlayTurn_def RemovePallet_def GetPallet_def)
  from AddPac_upsert[where ?gm0.0 = game_sighted and myScore = 0 and opponentScore = 0
      and pacs = "[(3, 0, 1, 0, ''NEUTRAL'', 0, 0), (4, 0, 0, 0, ''NEUTRAL'', 0, 0)]"
      and pellets = "[]" and moves = "[]"
      and ?gm1.0 = "game_of grid_1x2 []
                  [(pac_at 3 1 0 1 0)\<lparr>Mine := False\<rparr>, (pac_at 4 0 0 0 0)\<lparr>Mine := False\<rparr>] []
                  \<lparr>VisiblePacCount := 2\<rparr>"] mt
  have "prefix (map Pac.Id (OpponentPacs game_sighted))
          (map Pac.Id (OpponentPacs (game_of grid_1x2 []
                  [(pac_at 3 1 0 1 0)\<lparr>Mine := False\<rparr>, (pac_at 4 0 0 0 0)\<lparr>Mine := False\<rparr>] []
                  \<lparr>VisiblePacCount := 2\<rparr>)))"
    by blast
  then show ?thesis using mt by (simp add: game_of_def pac_at_def)
qed

section \<open>The closest-pellet searches\<close>




lemma GetClosest_loop_result:
  "GetClosest_loop v gm pac ks c d = Some (Inr (Some k)) \<Longrightarrow>
   c = Some k \<or>
   (k \<in> set ks \<and> Value (Pellet gm ! k) = v \<and> \<not> Consumed (Pellet gm ! k) \<and> \<not> Targeted (Pellet gm ! k))"
proof (induction ks arbitrary: c d)
  case Nil
  then show ?case by simp
next
  case (Cons k1 ks)
  from Cons.prems consider
    (a) "GetClosest_loop v gm pac ks c d = Some (Inr (Some k))"
  | (b) path where "Value (Pellet gm ! k1) = v \<and> \<not> Consumed (Pellet gm ! k1) \<and> \<not> Targeted (Pellet gm ! k1)"
      "GetClosest_loop v gm pac ks (Some k1) (len_path path) = Some (Inr (Some k))"
    by (auto split: if_splits option.splits sum.splits)
  then show ?case
  proof cases
    case a
    from Cons.IH[OF a] show ?thesis by auto
  next
    case b
    from Cons.IH[OF b(2)] b(1) show ?thesis by auto
  qed
qed



section \<open>The searches and the turn on concrete games\<close>

lemma main_grid_walled: "main_grid ['' # ''] = Inr grid_walled"
  by (simp add: main_grid_def main_cells_def main_cell_def InitNeighbors_def getNeighbors_def
      grid_ref_def int64_def enumerate_eq_zip grid_walled_def open_cell_def wall_cell_def)

text \<open>
  C3. The claim: with no pellet to target, a pac that stands on its target completes
  \<open>PlayTurn\<close> and holds its position. One owned pac on its target and no pellet at
  all: \<open>PlayTurn\<close> panics on the nil pointer of line 399.
\<close>

theorem PlayTurn_no_pellets_faults:
  "PlayTurn game_no_pellets = Some (Inl NilDereference)"
  by (simp add: PlayTurn_def game_no_pellets_def game_of_def pac_at_def RemovePallet_def
      GetPallet_def CheckTargetEaten_def PlayTurn_pac_def PlayTurn_reached_def
      GetClosestSuperPallet_def GetClosestRegularPallet_def)

text \<open>
  C5. The claim: a pellet to which the search finds no path is skipped. On the grid of
  the row \<open>" # "\<close> the pellet at (2, 0) lies behind the wall, \<open>AStar\<close> returns
  \<open>nil\<close> for it, and the closest-pellet search returns it; \<open>PlayTurn\<close> commits the
  pac to it with the distance 0 and emits the move.
\<close>

theorem unreachable_pellet_selected:
  "main_grid ['' # ''] = Inr grid_walled \<and> isWall (cell_at grid_walled (0, 1)) \<and>
   AStar 0 0 2 0 grid_walled = Some (Inr None) \<and>
   GetClosestSuperPallet game_walled (pac_at 0 0 0 0 0) = Some (Inr (Some 0)) \<and>
   PlayTurn game_walled =
     Some (Inr (game_of grid_walled [(pac_at 0 0 0 2 0)\<lparr>TargetPelletDist := 0\<rparr>] []
                  [pellet_at 2 0 10 False True], [(0, 2, 0)]))"
proof -
  have a: "AStar 0 0 2 0 grid_walled = Some (Inr None)"
    by (simp add: AStar_eq GetCell_def grid_ref_def grid_walled_def)
  have w: "isWall (cell_at grid_walled (0, 1))"
    by (simp add: grid_walled_def cell_at_def wall_cell_def)
  have c: "GetClosestSuperPallet game_walled (pac_at 0 0 0 0 0) = Some (Inr (Some 0))"
    by (simp add: GetClosestSuperPallet_def game_walled_def game_of_def pellet_at_def pac_at_def a)
  have p: "PlayTurn game_walled =
     Some (Inr (game_of grid_walled [(pac_at 0 0 0 2 0)\<lparr>TargetPelletDist := 0\<rparr>] []
                  [pellet_at 2 0 10 False True], [(0, 2, 0)]))"
    by (simp add: PlayTurn_def game_walled_def game_of_def pac_at_def pellet_at_def RemovePallet_def
      GetPallet_def CheckTargetEaten_def PlayTurn_pac_def PlayTurn_reached_def
      GetClosestSuperPallet_def GetClosestRegularPallet_def PlayTurn_commit_def a len_path_def)
  show ?thesis using a w c p main_grid_walled by simp
qed


end
